theory Spec2Isabelle
  imports Main "HOL-Library.Sublist"
begin

section \<open>Strings (the functions of package strings that the analyzer calls)\<close>

text \<open>
  A Go string is a byte sequence: \<^typ>\<open>string\<close>. \<open>Index\<close> is \<open>strings.Index\<close>
  (\<open>None\<close> stands for Go's \<open>-1\<close>), \<open>Contains\<close> is \<open>strings.Contains\<close>.
\<close>

fun Index :: "string \<Rightarrow> string \<Rightarrow> nat option" where
  "Index [] substr = (if substr = [] then Some 0 else None)"
| "Index (c # s) substr =
     (if prefix substr (c # s) then Some 0 else map_option Suc (Index s substr))"

definition Contains :: "string \<Rightarrow> string \<Rightarrow> bool" where
  "Contains s substr = (Index s substr \<noteq> None)"

text \<open>
  \<open>strings.TrimSpace\<close> removes the leading and the trailing white space runes
  (\<open>unicode.IsSpace\<close>) of a string, read as UTF-8. The white space runes and their
  encodings:
  \<^item> one byte: \<open>\t\<close>, \<open>\n\<close>, \<open>\v\<close>, \<open>\f\<close>, \<open>\r\<close> and the space;
  \<^item> two bytes: U+0085 (\<open>C2 85\<close>), U+00A0 (\<open>C2 A0\<close>);
  \<^item> three bytes: U+1680 (\<open>E1 9A 80\<close>), U+2000 to U+200A (\<open>E2 80 80\<close> to \<open>E2 80 8A\<close>),
    U+2028, U+2029, U+202F (\<open>E2 80 A8\<close>, \<open>E2 80 A9\<close>, \<open>E2 80 AF\<close>), U+205F (\<open>E2 81 9F\<close>),
    U+3000 (\<open>E3 80 80\<close>).
  A byte sequence that is not one of these encodings decodes to a rune that is no white
  space (an invalid sequence decodes to U+FFFD), and the trimming stops there.
\<close>

definition isSpace :: "char \<Rightarrow> bool" where
  "isSpace c = (c = CHR '' '' \<or> c = CHR 0x09 \<or> c = CHR 0x0A \<or> c = CHR 0x0B
                \<or> c = CHR 0x0C \<or> c = CHR 0x0D)"

definition isSpace2 :: "char \<Rightarrow> char \<Rightarrow> bool" where
  "isSpace2 b0 b1 = (b0 = CHR 0xC2 \<and> (b1 = CHR 0x85 \<or> b1 = CHR 0xA0))"

definition isSpace3 :: "char \<Rightarrow> char \<Rightarrow> char \<Rightarrow> bool" where
  "isSpace3 b0 b1 b2 =
     ((b0 = CHR 0xE1 \<and> b1 = CHR 0x9A \<and> b2 = CHR 0x80)
      \<or> (b0 = CHR 0xE2 \<and> b1 = CHR 0x80
          \<and> ((0x80 \<le> (of_char b2 :: nat) \<and> (of_char b2 :: nat) \<le> 0x8A)
               \<or> b2 = CHR 0xA8 \<or> b2 = CHR 0xA9 \<or> b2 = CHR 0xAF))
      \<or> (b0 = CHR 0xE2 \<and> b1 = CHR 0x81 \<and> b2 = CHR 0x9F)
      \<or> (b0 = CHR 0xE3 \<and> b1 = CHR 0x80 \<and> b2 = CHR 0x80))"

text \<open>
  The width of the white space rune at the start of a string (0 when the string does not
  start with one), and of the one at its end; the latter reads the reversed string.
\<close>

fun spaceWidth :: "string \<Rightarrow> nat" where
  "spaceWidth (b0 # b1 # b2 # s) =
     (if isSpace b0 then 1 else if isSpace2 b0 b1 then 2 else if isSpace3 b0 b1 b2 then 3 else 0)"
| "spaceWidth [b0, b1] = (if isSpace b0 then 1 else if isSpace2 b0 b1 then 2 else 0)"
| "spaceWidth [b0] = (if isSpace b0 then 1 else 0)"
| "spaceWidth [] = 0"

fun spaceWidthEnd :: "string \<Rightarrow> nat" where
  "spaceWidthEnd (b2 # b1 # b0 # r) =
     (if isSpace b2 then 1 else if isSpace2 b1 b2 then 2 else if isSpace3 b0 b1 b2 then 3 else 0)"
| "spaceWidthEnd [b1, b0] = (if isSpace b1 then 1 else if isSpace2 b0 b1 then 2 else 0)"
| "spaceWidthEnd [b0] = (if isSpace b0 then 1 else 0)"
| "spaceWidthEnd [] = 0"

lemma spaceWidth_le: "spaceWidth s \<le> length s"
  by (cases s rule: spaceWidth.cases) simp_all

lemma spaceWidthEnd_le: "spaceWidthEnd r \<le> length r"
  by (cases r rule: spaceWidthEnd.cases) simp_all

text \<open>\<open>strings.TrimLeftFunc(s, unicode.IsSpace)\<close>.\<close>

function TrimLeftSpace :: "string \<Rightarrow> string" where
  "TrimLeftSpace s = (if spaceWidth s = 0 then s else TrimLeftSpace (drop (spaceWidth s) s))"
  by pat_completeness auto
termination
proof (relation "measure length")
  fix s :: string
  assume "spaceWidth s \<noteq> 0"
  moreover have "spaceWidth s \<le> length s" by (rule spaceWidth_le)
  ultimately show "(drop (spaceWidth s) s, s) \<in> measure length" by simp
qed simp

declare TrimLeftSpace.simps [simp del]

text \<open>\<open>strings.TrimRightFunc(s, unicode.IsSpace)\<close>, on the reversed string.\<close>

function TrimRightSpaceRev :: "string \<Rightarrow> string" where
  "TrimRightSpaceRev r =
     (if spaceWidthEnd r = 0 then r else TrimRightSpaceRev (drop (spaceWidthEnd r) r))"
  by pat_completeness auto
termination
proof (relation "measure length")
  fix r :: string
  assume "spaceWidthEnd r \<noteq> 0"
  moreover have "spaceWidthEnd r \<le> length r" by (rule spaceWidthEnd_le)
  ultimately show "(drop (spaceWidthEnd r) r, r) \<in> measure length" by simp
qed simp

declare TrimRightSpaceRev.simps [simp del]

definition TrimSpace :: "string \<Rightarrow> string" where
  "TrimSpace s = rev (TrimRightSpaceRev (rev (TrimLeftSpace s)))"

text \<open>\<open>strings.Split(s, sep)\<close> for a separator of one byte: \<open>Split "" ","\<close> is \<open>[""]\<close>.\<close>

fun Split :: "string \<Rightarrow> char \<Rightarrow> string list" where
  "Split [] sep = [[]]"
| "Split (c # s) sep =
     (if c = sep then [] # Split s sep
      else (case Split s sep of [] \<Rightarrow> [[c]] | w # ws \<Rightarrow> (c # w) # ws))"

section \<open>The input: syntax trees with resolved types (go/ast, go/types, go/token)\<close>

text \<open>A \<open>token.Pos\<close>; \<open>token.NoPos\<close> is 0.\<close>

type_synonym pos = nat

definition NoPos :: pos where
  "NoPos = 0"

text \<open>
  A \<open>types.Object\<close>. The code holds objects by pointer (\<open>*types.TypeName\<close> is a map
  key); the model's object carries its address, so that two objects of one name are
  different values.
\<close>

datatype obj_class = TypeNameObj | VarObj | OtherObj

datatype object = Object (obj_addr: nat) (obj_class: obj_class) (obj_name: string) (obj_pos: pos)

text \<open>
  A \<open>types.Type\<close>:
  \<^item> \<open>Named obj targs\<close>: a \<open>*types.Named\<close> with its \<open>Obj()\<close> (for an instantiated type, the
    type name of the generic type) and its \<open>TypeArgs()\<close>;
  \<^item> \<open>Pointer t\<close>: a \<open>*types.Pointer\<close>;
  \<^item> \<open>Alias name t\<close>: a \<open>*types.Alias\<close> of the type \<open>t\<close>;
  \<^item> \<open>OtherType descr\<close>: any other type (basic types, type parameters, structs, slices,
    ...), given by a description that two such types share exactly when they are
    identical.
\<close>

datatype gotype = Named object "gotype list" | Pointer gotype | Alias string gotype | OtherType string

text \<open>
  \<open>types.Identical\<close>: aliases are replaced by the types they stand for, at every level;
  two named types are identical when they come from the same declaration and their type
  arguments are identical.
\<close>

fun Identical :: "gotype \<Rightarrow> gotype \<Rightarrow> bool"
  and IdenticalList :: "gotype list \<Rightarrow> gotype list \<Rightarrow> bool" where
  "Identical (Alias n t) y = Identical t y"
| "Identical (Named a xs) (Alias n t) = Identical (Named a xs) t"
| "Identical (Pointer x) (Alias n t) = Identical (Pointer x) t"
| "Identical (OtherType d) (Alias n t) = Identical (OtherType d) t"
| "Identical (Named a xs) (Named b ys) = (a = b \<and> IdenticalList xs ys)"
| "Identical (Pointer x) (Pointer y) = Identical x y"
| "Identical (OtherType d) (OtherType e) = (d = e)"
| "Identical (Named a xs) (Pointer y) = False"
| "Identical (Named a xs) (OtherType e) = False"
| "Identical (Pointer x) (Named b ys) = False"
| "Identical (Pointer x) (OtherType e) = False"
| "Identical (OtherType d) (Named b ys) = False"
| "Identical (OtherType d) (Pointer y) = False"
| "IdenticalList [] [] = True"
| "IdenticalList (x # xs) (y # ys) = (Identical x y \<and> IdenticalList xs ys)"
| "IdenticalList [] (y # ys) = False"
| "IdenticalList (x # xs) [] = False"

text \<open>A \<open>*types.Named\<close> held by the analyzer: its \<open>Obj()\<close> and its \<open>TypeArgs()\<close>.\<close>

type_synonym named = "object \<times> gotype list"

datatype selection_kind = FieldVal | MethodVal | MethodExpr

datatype selection = Selection (Kind: selection_kind) (Recv: "gotype option")

datatype token =
    ASSIGN | DEFINE | ADD_ASSIGN | SUB_ASSIGN | MUL_ASSIGN | QUO_ASSIGN | REM_ASSIGN
  | AND_ASSIGN | OR_ASSIGN | XOR_ASSIGN | SHL_ASSIGN | SHR_ASSIGN | AND_NOT_ASSIGN
  | INC | DEC

text \<open>An identifier that declares a field or a parameter: \<open>Name\<close> and \<open>Pos()\<close>.\<close>

datatype ident = Id (Name: string) (NamePos: pos)

text \<open>
  An \<open>ast.Field\<close> of a struct type or of a parameter list. A comment group is the list
  of its comments' \<open>Text\<close> (with the comment marker, as go/ast keeps it); \<open>None\<close> is a
  nil group. An embedded field has no \<open>Names\<close>.
\<close>

record field =
  Doc :: "string list option"
  Comment :: "string list option"
  Names :: "ident list"

text \<open>
  What an \<open>ast.FuncDecl\<close> carries beside its body: \<open>Doc\<close>, the resolved type of the
  receiver (\<open>None\<close> for a function), \<open>Name.Name\<close>, \<open>Pos()\<close>, \<open>Type.Params\<close> (\<open>None\<close> is
  nil) and the resolved types of \<open>Type.Results\<close>.
\<close>

record func_decl =
  fd_Doc :: "string list option"
  fd_Recv :: "gotype option"
  fd_Name :: string
  fd_Pos :: pos
  fd_Params :: "field list option"
  fd_Results :: "gotype list"

text \<open>
  The nodes of a file. Every node starts with its address (the analyzer compares nodes
  by pointer). What the type checker resolved (\<open>pass.TypesInfo\<close>) is stored at the node:
  \<^item> \<open>TypeSpec a obj fields\<close>: \<open>Defs[Name]\<close>, and the field list when \<open>Type\<close> is a
    \<open>*ast.StructType\<close>;
  \<^item> \<open>FuncDecl a d body\<close>: the statements of \<open>Body\<close>; \<open>None\<close> is a nil \<open>Body\<close> (a
    declaration without a body, of a function implemented outside Go);
  \<^item> \<open>AssignStmt a lhs tok rhs\<close>;
  \<^item> \<open>IncDecStmt a x tok\<close>;
  \<^item> \<open>Ident a name pos obj\<close>: \<open>ObjectOf\<close> the identifier;
  \<^item> \<open>SelectorExpr a pos x sel selection\<close>: \<open>X\<close>, \<open>Sel.Name\<close>, \<open>Selections\<close> of the
    expression;
  \<^item> \<open>CompositeLit a ty elts\<close>: \<open>TypeOf(Type)\<close> and \<open>Elts\<close>; \<open>TypeOf\<close> is nil (\<open>None\<close>) when
    the literal is written without its type, as the elements of \<open>[]T{{}, {}}\<close> are;
  \<^item> \<open>OtherNode a ns\<close>: any other statement, expression or declaration (blocks,
    calls, function literals, \<open>&x\<close>, \<open>*x\<close>, ...), with its children.
  Nodes that no check looks at and that hold no statement (comments, field lists, type
  expressions, the identifiers of declarations) are left out of the tree.
\<close>

datatype node =
    File nat "node list"
  | GenDecl nat "node list"
  | TypeSpec nat "object option" "field list option"
  | FuncDecl nat func_decl "node list option"
  | AssignStmt nat "node list" token "node list"
  | IncDecStmt nat node token
  | Ident nat string pos "object option"
  | SelectorExpr nat pos node string "selection option"
  | CompositeLit nat "gotype option" "node list"
  | OtherNode nat "node list"

fun addr :: "node \<Rightarrow> nat" where
  "addr (File a _) = a"
| "addr (GenDecl a _) = a"
| "addr (TypeSpec a _ _) = a"
| "addr (FuncDecl a _ _) = a"
| "addr (AssignStmt a _ _ _) = a"
| "addr (IncDecStmt a _ _) = a"
| "addr (Ident a _ _ _) = a"
| "addr (SelectorExpr a _ _ _ _) = a"
| "addr (CompositeLit a _ _) = a"
| "addr (OtherNode a _) = a"

text \<open>The children of a node, in the order \<open>ast.Walk\<close> visits them.\<close>

fun children :: "node \<Rightarrow> node list" where
  "children (File _ decls) = decls"
| "children (GenDecl _ specs) = specs"
| "children (TypeSpec _ _ _) = []"
| "children (FuncDecl _ _ body) = (case body of None \<Rightarrow> [] | Some stmts \<Rightarrow> stmts)"
| "children (AssignStmt _ lhs _ rhs) = lhs @ rhs"
| "children (IncDecStmt _ x _) = [x]"
| "children (Ident _ _ _ _) = []"
| "children (SelectorExpr _ _ x _ _) = [x]"
| "children (CompositeLit _ _ elts) = elts"
| "children (OtherNode _ ns) = ns"

fun isFuncDecl :: "node \<Rightarrow> bool" where
  "isFuncDecl (FuncDecl _ _ _) = True"
| "isFuncDecl _ = False"

fun isTypeSpec :: "node \<Rightarrow> bool" where
  "isTypeSpec (TypeSpec _ _ _) = True"
| "isTypeSpec _ = False"

fun isAssignStmt :: "node \<Rightarrow> bool" where
  "isAssignStmt (AssignStmt _ _ _ _) = True"
| "isAssignStmt _ = False"

lemma children_size: "c \<in> set (children n) \<Longrightarrow> size c < size n"
  by (cases n)
    (auto simp: less_Suc_eq_le split: option.splits
          dest: size_list_estimation'[where f = size and y = "size c"])

text \<open>
  The depth-first order in which \<open>inspector.Preorder\<close> and \<open>ast.Inspect\<close> reach the
  nodes below (and including) a node.
\<close>

function preorder :: "node \<Rightarrow> node list" where
  "preorder n = n # concat (map preorder (children n))"
  by pat_completeness auto
termination
  by (relation "measure size") (auto simp: children_size)

declare preorder.simps [simp del]

text \<open>
  \<open>ast.Inspect(n, f)\<close> for a callback that updates captured variables (the state \<open>'s\<close>):
  \<open>f\<close> is called at \<open>n\<close>, and the children are walked only when it returns true.
  (The closing call \<open>f(nil)\<close> changes nothing in either callback of the analyzer.)
\<close>

function Inspect :: "(node \<Rightarrow> 's \<Rightarrow> bool \<times> 's) \<Rightarrow> node \<Rightarrow> 's \<Rightarrow> 's" where
  "Inspect f n s =
     (case f n s of
        (True, s') \<Rightarrow> fold (Inspect f) (children n) s'
      | (False, s') \<Rightarrow> s')"
  by pat_completeness auto
termination
  by (relation "measure (\<lambda>(f, n, s). size n)") (auto simp: children_size)

declare Inspect.simps [simp del]

section \<open>The analyzer (analyzer/analyzer.go)\<close>

text \<open>
  \<open>analysis.Pass\<close>: the files, \<open>Pkg.Path()\<close>, and \<open>Fset.Position(p)\<close> as \<open>%s\<close> prints
  it. \<open>TypesInfo\<close> is stored at the nodes.
\<close>

record pass =
  Files :: "node list"
  PkgPath :: string
  Position :: "pos \<Rightarrow> string"

datatype constField = ConstField (structType: object) (fieldName: string)

datatype constParam = ConstParam (funcName: string) (paramName: string) (packagePath: string)

text \<open>What \<open>pass.Reportf(pos, format, ...)\<close> records.\<close>

datatype diagnostic = Diagnostic (Pos: pos) (Message: string)

text \<open>
  A run-time panic. The analyzer can panic at one place: \<open>isInstanciator\<close> hands
  \<open>funcDecl.Body\<close> to \<open>ast.Inspect\<close>, and \<open>ast.Walk\<close> reads \<open>n.List\<close> of a nil
  \<open>*ast.BlockStmt\<close>. The checks and \<open>run\<close> return \<open>Inl\<close> of the panic, or \<open>Inr\<close> of their
  diagnostics; a panic ends the pass, and what was reported before it is not part of a
  result.
\<close>

datatype panic = NilDereference

text \<open>A loop whose body may panic: the diagnostics of all iterations, or the first panic.\<close>

fun checkAll :: "('a \<Rightarrow> panic + diagnostic list) \<Rightarrow> 'a list \<Rightarrow> panic + diagnostic list" where
  "checkAll f [] = Inr []"
| "checkAll f (x # xs) =
     (case f x of
        Inl e \<Rightarrow> Inl e
      | Inr ds \<Rightarrow> (case checkAll f xs of Inl e \<Rightarrow> Inl e | Inr ds' \<Rightarrow> Inr (ds @ ds')))"

subsection \<open>astPath and the enclosing function\<close>

text \<open>
  The callback of \<open>astPath\<close>; its captured variables are \<open>(path, found)\<close>.
  \<open>n == target\<close> compares pointers.
\<close>

definition astPathVisit :: "node \<Rightarrow> node \<Rightarrow> node list \<times> bool \<Rightarrow> bool \<times> node list \<times> bool" where
  "astPathVisit target n = (\<lambda>(path, found).
     if found then (False, path, found)
     else if addr n = addr target then (False, path, True)
     else (True, path @ [n], found))"

fun astPath :: "node list \<Rightarrow> node \<Rightarrow> node list \<times> bool" where
  "astPath [] target = ([], False)"
| "astPath (file # files) target =
     (case Inspect (astPathVisit target) file ([], False) of
        (path, True) \<Rightarrow> (path, True)
      | (path, False) \<Rightarrow> astPath files target)"

text \<open>
  The loop \<open>for i := len(path) - 1; i >= 0; i--\<close> that both checks run on the path:
  the last \<open>*ast.FuncDecl\<close> of the path (\<open>None\<close> is \<open>funcDecl == nil\<close>).
\<close>

definition lastFuncDecl :: "node list \<Rightarrow> node option" where
  "lastFuncDecl path = find isFuncDecl (rev path)"

subsection \<open>isInstanciator\<close>

text \<open>
  The callback of the \<open>ast.Inspect\<close> over the body; its captured variable is
  \<open>foundInstantiation\<close>. \<open>elemOfPointer\<close> is the step
  \<open>if ptr, ok := litType.(*types.Pointer); ok { litType = ptr.Elem() }\<close>.
\<close>

fun elemOfPointer :: "gotype \<Rightarrow> gotype" where
  "elemOfPointer (Pointer t) = t"
| "elemOfPointer t = t"

fun instVisit :: "named \<Rightarrow> node \<Rightarrow> bool \<Rightarrow> bool \<times> bool" where
  "instVisit namedType (CompositeLit a ty elts) foundInstantiation =
     (if foundInstantiation then (False, foundInstantiation)
      else (case ty of
              None \<Rightarrow> (True, foundInstantiation)
            | Some litType \<Rightarrow>
                if Identical (elemOfPointer litType) (Named (fst namedType) (snd namedType))
                then (False, True)
                else (True, foundInstantiation)))"
| "instVisit namedType n foundInstantiation =
     (if foundInstantiation then (False, foundInstantiation) else (True, foundInstantiation))"

text \<open>\<open>funcDecl.Body\<close> and \<open>funcDecl.Name.Name\<close> of the node found on the path.\<close>

fun funcBody :: "node \<Rightarrow> node list option" where
  "funcBody (FuncDecl _ _ body) = body"
| "funcBody _ = None"

fun funcDeclName :: "node \<Rightarrow> string" where
  "funcDeclName (FuncDecl _ d _) = fd_Name d"
| "funcDeclName _ = []"

definition isInstanciator :: "pass \<Rightarrow> node \<Rightarrow> named \<Rightarrow> panic + bool" where
  "isInstanciator pass expr namedType =
     (case lastFuncDecl (fst (astPath (Files pass) expr)) of
        None \<Rightarrow> Inr False
      | Some funcDecl \<Rightarrow>
          (case funcBody funcDecl of
             None \<Rightarrow> Inl NilDereference
           | Some body \<Rightarrow> Inr (fold (Inspect (instVisit namedType)) body False)))"

subsection \<open>checkAssignment (checkFieldAssignment)\<close>

text \<open>
  The switch on the receiver type: a \<open>*types.Named\<close>, or a \<open>*types.Pointer\<close> whose
  \<open>Elem()\<close> is a \<open>*types.Named\<close>; anything else (an alias too) returns from the check.
\<close>

fun namedTypeOf :: "gotype \<Rightarrow> named option" where
  "namedTypeOf (Named t targs) = Some (t, targs)"
| "namedTypeOf (Pointer (Named t targs)) = Some (t, targs)"
| "namedTypeOf _ = None"

definition fieldMessage :: "pass \<Rightarrow> object \<Rightarrow> string \<Rightarrow> pos \<Rightarrow> string" where
  "fieldMessage pass typeName field fieldPos =
     ''assignment to const field '' @ obj_name typeName @ ''.'' @ field
       @ '' (marked with // +const at '' @ Position pass fieldPos @ '')''"

fun checkAssignment :: "pass \<Rightarrow> node \<Rightarrow> (constField \<rightharpoonup> pos) \<Rightarrow> panic + diagnostic list" where
  "checkAssignment pass (SelectorExpr a p x sel selection) constFields =
     (case selection of
        None \<Rightarrow> Inr []
      | Some s \<Rightarrow>
          if Kind s \<noteq> FieldVal then Inr []
          else (case Recv s of
                  None \<Rightarrow> Inr []
                | Some recvType \<Rightarrow>
                    (case namedTypeOf recvType of
                       None \<Rightarrow> Inr []
                     | Some namedType \<Rightarrow>
                         (case constFields (ConstField (fst namedType) sel) of
                            None \<Rightarrow> Inr []
                          | Some fieldPos \<Rightarrow>
                              (case isInstanciator pass (SelectorExpr a p x sel selection) namedType of
                                 Inl e \<Rightarrow> Inl e
                               | Inr inst \<Rightarrow>
                                   if \<not> inst
                                   then Inr [Diagnostic p (fieldMessage pass (fst namedType) sel fieldPos)]
                                   else Inr [])))))"
| "checkAssignment pass expr constFields = Inr []"

definition checkFieldAssignment :: "pass \<Rightarrow> node \<Rightarrow> (constField \<rightharpoonup> pos) \<Rightarrow> panic + diagnostic list" where
  "checkFieldAssignment pass expr constFields = checkAssignment pass expr constFields"

subsection \<open>checkParamAssignment\<close>

definition paramMessage :: "pass \<Rightarrow> string \<Rightarrow> pos \<Rightarrow> string" where
  "paramMessage pass name paramPos =
     ''assignment to const parameter '' @ name
       @ '' (marked with // +const at '' @ Position pass paramPos @ '')''"

fun checkParamAssignment :: "pass \<Rightarrow> node \<Rightarrow> (constParam \<rightharpoonup> pos) \<Rightarrow> diagnostic list" where
  "checkParamAssignment pass (Ident a name p obj) constParams =
     (case astPath (Files pass) (Ident a name p obj) of
        (path, found) \<Rightarrow>
          if \<not> found then []
          else (case lastFuncDecl path of
                  None \<Rightarrow> []
                | Some funcDecl \<Rightarrow>
                    (case obj of
                       None \<Rightarrow> []
                     | Some ob \<Rightarrow>
                         if obj_pos ob = NoPos then []
                         else (case constParams (ConstParam (funcDeclName funcDecl) name (PkgPath pass)) of
                                 None \<Rightarrow> []
                               | Some paramPos \<Rightarrow>
                                   [Diagnostic p (paramMessage pass name paramPos)]))))"
| "checkParamAssignment pass expr constParams = []"

subsection \<open>run: the first pass (the index of markers)\<close>

definition hasMarker :: "string list \<Rightarrow> bool" where
  "hasMarker comments = list_ex (\<lambda>text. Contains text ''+const'') comments"

text \<open>The variable \<open>hasConstMarker\<close> after both comment groups of a field were read.\<close>

definition hasConstMarker :: "field \<Rightarrow> bool" where
  "hasConstMarker f =
     (let inDoc = (case Doc f of None \<Rightarrow> False | Some comments \<Rightarrow> hasMarker comments)
      in if \<not> inDoc then (case Comment f of None \<Rightarrow> False | Some comments \<Rightarrow> hasMarker comments)
         else inDoc)"

definition markField :: "object \<Rightarrow> field \<Rightarrow> (constField \<rightharpoonup> pos) \<Rightarrow> (constField \<rightharpoonup> pos)" where
  "markField typeName f constFields =
     (if Doc f = None \<and> Comment f = None then constFields
      else if hasConstMarker f
      then fold (\<lambda>name m. m(ConstField typeName (Name name) \<mapsto> NamePos name)) (Names f) constFields
      else constFields)"

text \<open>
  One comment of a function's doc: the text between \<open>// +const:[\<close> and the next \<open>]\<close>,
  when both are there.
\<close>

definition explicitList :: "string \<Rightarrow> string option" where
  "explicitList text =
     (case Index text ''// +const:['' of
        None \<Rightarrow> None
      | Some constIndex \<Rightarrow>
          (let startIdx = constIndex + length ''// +const:['' in
           case Index (drop startIdx text) '']'' of
             None \<Rightarrow> None
           | Some endIdx \<Rightarrow> Some (take endIdx (drop startIdx text))))"

text \<open>The loop over \<open>node.Doc.List\<close>: \<open>(constParamList, allParamsConst)\<close> at its end.\<close>

fun scanDoc :: "string list \<Rightarrow> string \<times> bool" where
  "scanDoc [] = ([], False)"
| "scanDoc (text # comments) =
     (case explicitList text of
        Some constParamList \<Rightarrow> (constParamList, False)
      | None \<Rightarrow>
          if TrimSpace text = ''// +const'' then ([], True)
          else scanDoc comments)"

definition allParamNames :: "func_decl \<Rightarrow> string list" where
  "allParamNames d =
     (case fd_Params d of
        None \<Rightarrow> []
      | Some params \<Rightarrow> concat (map (\<lambda>f. map Name (Names f)) params))"

text \<open>
  The names the \<open>*ast.FuncDecl\<close> case marks: the variable \<open>paramNames\<close> at its last
  loop, and no name where the case returns before it.
\<close>

definition paramNames :: "func_decl \<Rightarrow> string list" where
  "paramNames d =
     (case fd_Doc d of
        None \<Rightarrow> []
      | Some doc \<Rightarrow>
          (case scanDoc doc of
             (constParamList, allParamsConst) \<Rightarrow>
               if constParamList = [] \<and> \<not> allParamsConst then []
               else if allParamsConst then allParamNames d
               else map TrimSpace (Split constParamList (CHR '',''))))"

definition markParams :: "pass \<Rightarrow> func_decl \<Rightarrow> (constParam \<rightharpoonup> pos) \<Rightarrow> (constParam \<rightharpoonup> pos)" where
  "markParams pass d constParams =
     fold (\<lambda>paramName m. m(ConstParam (fd_Name d) paramName (PkgPath pass) \<mapsto> fd_Pos d))
       (paramNames d) constParams"

text \<open>The callback of the first \<open>Preorder\<close>; its captured variables are the two maps.\<close>

fun indexNode :: "pass \<Rightarrow> node \<Rightarrow> (constField \<rightharpoonup> pos) \<times> (constParam \<rightharpoonup> pos)
    \<Rightarrow> (constField \<rightharpoonup> pos) \<times> (constParam \<rightharpoonup> pos)" where
  "indexNode pass (TypeSpec a obj ty) (constFields, constParams) =
     (case ty of
        None \<Rightarrow> (constFields, constParams)
      | Some fieldList \<Rightarrow>
          (case obj of
             None \<Rightarrow> (constFields, constParams)
           | Some typeName \<Rightarrow>
               if obj_class typeName \<noteq> TypeNameObj then (constFields, constParams)
               else (fold (markField typeName) fieldList constFields, constParams)))"
| "indexNode pass (FuncDecl a d body) (constFields, constParams) =
     (constFields, markParams pass d constParams)"
| "indexNode pass n (constFields, constParams) = (constFields, constParams)"

definition allNodes :: "pass \<Rightarrow> node list" where
  "allNodes pass = concat (map preorder (Files pass))"

definition buildIndex :: "pass \<Rightarrow> (constField \<rightharpoonup> pos) \<times> (constParam \<rightharpoonup> pos)" where
  "buildIndex pass =
     fold (indexNode pass) (filter (\<lambda>n. isTypeSpec n \<or> isFuncDecl n) (allNodes pass))
       (Map.empty, Map.empty)"

subsection \<open>run: the second pass (the assignments)\<close>

text \<open>The body of the loop over \<open>assignStmt.Lhs\<close>.\<close>

definition checkLhs :: "pass \<Rightarrow> (constField \<rightharpoonup> pos) \<Rightarrow> (constParam \<rightharpoonup> pos) \<Rightarrow> node
    \<Rightarrow> panic + diagnostic list" where
  "checkLhs pass constFields constParams lhs =
     (case checkFieldAssignment pass lhs constFields of
        Inl e \<Rightarrow> Inl e
      | Inr ds \<Rightarrow> Inr (ds @ checkParamAssignment pass lhs constParams))"

text \<open>The callback of the second \<open>Preorder\<close>: the diagnostics of one statement.\<close>

fun checkStmt :: "pass \<Rightarrow> (constField \<rightharpoonup> pos) \<Rightarrow> (constParam \<rightharpoonup> pos) \<Rightarrow> node
    \<Rightarrow> panic + diagnostic list" where
  "checkStmt pass constFields constParams (AssignStmt a lhs tok rhs) =
     (if tok = DEFINE then Inr []
      else checkAll (checkLhs pass constFields constParams) lhs)"
| "checkStmt pass constFields constParams n = Inr []"

text \<open>
  \<open>run\<close>: the diagnostics reported for a package, in the order of their report, or the
  panic that ended the pass.
\<close>

definition run :: "pass \<Rightarrow> panic + diagnostic list" where
  "run pass =
     (case buildIndex pass of
        (constFields, constParams) \<Rightarrow>
          checkAll (checkStmt pass constFields constParams)
            (filter isAssignStmt (allNodes pass)))"

section \<open>Notions the properties are stated with\<close>

text \<open>
  A composite literal written with a type that is, after one pointer is taken off,
  identical to the named type: the node at which the scan of \<open>isInstanciator\<close> stops.
\<close>

fun literalOf :: "named \<Rightarrow> node \<Rightarrow> bool" where
  "literalOf namedType (CompositeLit a (Some ty) elts) =
     Identical (elemOfPointer ty) (Named (fst namedType) (snd namedType))"
| "literalOf namedType n = False"

text \<open>
  A byte that is an ASCII white space or belongs to a multi-byte encoding: the bytes of
  the white space runes are of this kind.
\<close>

definition wsByte :: "char \<Rightarrow> bool" where
  "wsByte c = (isSpace c \<or> 0x80 \<le> (of_char c :: nat))"


text \<open>
  The type declaration \<open>n\<close> declares the struct type \<open>T\<close> with a field named \<open>F\<close> at
  position \<open>q\<close> whose comments carry the field marker.
\<close>

fun markedIn :: "object \<Rightarrow> string \<Rightarrow> pos \<Rightarrow> node \<Rightarrow> bool" where
  "markedIn T F q (TypeSpec a (Some typeName) (Some fieldList)) =
     (typeName = T \<and> obj_class T = TypeNameObj
      \<and> list_ex (\<lambda>f. hasConstMarker f \<and> Id F q \<in> set (Names f)) fieldList)"
| "markedIn T F q n = False"

definition fieldMarkedAt :: "pass \<Rightarrow> object \<Rightarrow> string \<Rightarrow> pos \<Rightarrow> bool" where
  "fieldMarkedAt pass T F q = list_ex (markedIn T F q) (allNodes pass)"

section \<open>The traversals\<close>

lemma astPathVisit_simps [simp]:
  "astPathVisit t n (p, True) = (False, p, True)"
  "astPathVisit t n (p, False) =
     (if addr n = addr t then (False, p, True) else (True, p @ [n], False))"
  by (simp_all add: astPathVisit_def)

lemma Inspect_astPath_found [simp]: "Inspect (astPathVisit t) n (path, True) = (path, True)"
  by (simp add: Inspect.simps)

lemma fold_Inspect_astPath_found [simp]:
  "fold (Inspect (astPathVisit t)) ns (path, True) = (path, True)"
  by (induction ns) simp_all

lemma fold_Inspect_astPath:
  assumes "\<And>c p. c \<in> set ns \<Longrightarrow>
             Inspect (astPathVisit t) c (p, False) =
               (p @ takeWhile (\<lambda>m. addr m \<noteq> addr t) (preorder c),
                list_ex (\<lambda>m. addr m = addr t) (preorder c))"
  shows "fold (Inspect (astPathVisit t)) ns (p, False) =
           (p @ takeWhile (\<lambda>m. addr m \<noteq> addr t) (concat (map preorder ns)),
            list_ex (\<lambda>m. addr m = addr t) (concat (map preorder ns)))"
  using assms
proof (induction ns arbitrary: p)
  case Nil
  then show ?case by simp
next
  case (Cons c ns)
  show ?case
  proof (cases "list_ex (\<lambda>m. addr m = addr t) (preorder c)")
    case True
    then obtain m where "m \<in> set (preorder c)" "\<not> addr m \<noteq> addr t"
      by (auto simp: list_ex_iff)
    then have "takeWhile (\<lambda>m. addr m \<noteq> addr t) (preorder c @ concat (map preorder ns)) =
               takeWhile (\<lambda>m. addr m \<noteq> addr t) (preorder c)"
      by (rule takeWhile_append1)
    with True Cons.prems[of c p] show ?thesis by simp
  next
    case False
    then have all: "\<And>m. m \<in> set (preorder c) \<Longrightarrow> addr m \<noteq> addr t"
      by (auto simp: list_ex_iff)
    then have tw: "takeWhile (\<lambda>m. addr m \<noteq> addr t) (preorder c @ concat (map preorder ns)) =
               preorder c @ takeWhile (\<lambda>m. addr m \<noteq> addr t) (concat (map preorder ns))"
      by (rule takeWhile_append2)
    have tw1: "takeWhile (\<lambda>m. addr m \<noteq> addr t) (preorder c) = preorder c"
      using all by (simp add: takeWhile_eq_all_conv)
    have "fold (Inspect (astPathVisit t)) ns (p @ preorder c, False) =
           ((p @ preorder c) @ takeWhile (\<lambda>m. addr m \<noteq> addr t) (concat (map preorder ns)),
            list_ex (\<lambda>m. addr m = addr t) (concat (map preorder ns)))"
      by (rule Cons.IH) (simp add: Cons.prems)
    then show ?thesis
      using False by (simp add: Cons.prems[of c p] tw tw1)
  qed
qed

lemma Inspect_astPath:
  "Inspect (astPathVisit t) n (p, False) =
     (p @ takeWhile (\<lambda>m. addr m \<noteq> addr t) (preorder n),
      list_ex (\<lambda>m. addr m = addr t) (preorder n))"
proof (induction n arbitrary: p rule: preorder.induct)
  case (1 n)
  show ?case
  proof (cases "addr n = addr t")
    case True
    then show ?thesis
      by (simp add: Inspect.simps[of _ n] preorder.simps[of n])
  next
    case False
    have "fold (Inspect (astPathVisit t)) (children n) (p @ [n], False) =
           ((p @ [n]) @ takeWhile (\<lambda>m. addr m \<noteq> addr t) (concat (map preorder (children n))),
            list_ex (\<lambda>m. addr m = addr t) (concat (map preorder (children n))))"
      by (rule fold_Inspect_astPath) (rule "1.IH")
    with False show ?thesis
      by (simp add: Inspect.simps[of _ n] preorder.simps[of n])
  qed
qed



lemma astPath_skip:
  "\<not> list_ex (\<lambda>m. addr m = addr t) (concat (map preorder fs1)) \<Longrightarrow>
   astPath (fs1 @ fs) t = astPath fs t"
  by (induction fs1) (simp_all add: Inspect_astPath)

lemma preorder_self: "n \<in> set (preorder n)"
  by (simp add: preorder.simps[of n])

lemma preorder_subtree:
  "m \<in> set (preorder n) \<Longrightarrow> \<exists>xs ys. preorder n = xs @ preorder m @ ys"
proof (induction n rule: preorder.induct)
  case (1 n)
  show ?case
  proof (cases "m = n")
    case True
    then have "preorder n = [] @ preorder m @ []" by simp
    then show ?thesis by blast
  next
    case False
    with "1.prems" obtain c where c: "c \<in> set (children n)" "m \<in> set (preorder c)"
      by (auto simp: preorder.simps[of n])
    from c(1) obtain cs1 cs2 where cs: "children n = cs1 @ c # cs2"
      by (auto dest: split_list)
    from "1.IH"[OF c] obtain xs ys where "preorder c = xs @ preorder m @ ys" by blast
    with cs have "preorder n =
        (n # concat (map preorder cs1) @ xs) @ preorder m @ (ys @ concat (map preorder cs2))"
      by (simp add: preorder.simps[of n])
    then show ?thesis by blast
  qed
qed

lemma find_app:
  "find P (xs @ ys) = (case find P xs of None \<Rightarrow> find P ys | Some x \<Rightarrow> Some x)"
  by (induction xs) simp_all

lemma enclosing_funcDecl:
  assumes dist: "distinct (map addr (concat (map preorder files)))"
    and R: "FuncDecl a d (Some body) \<in> set (concat (map preorder files))"
    and t: "t \<in> set (concat (map preorder body))"
    and nonest: "\<not> list_ex isFuncDecl (concat (map preorder body))"
  shows "snd (astPath files t) \<and>
         lastFuncDecl (fst (astPath files t)) = Some (FuncDecl a d (Some body))"
proof -
  let ?R = "FuncDecl a d (Some body)"
  let ?B = "concat (map preorder body)"
  from R obtain f where f: "f \<in> set files" "?R \<in> set (preorder f)" by auto
  from f(1) obtain fs1 fs2 where files: "files = fs1 @ f # fs2"
    by (auto dest: split_list)
  from preorder_subtree[OF f(2)] obtain xs ys where pf: "preorder f = xs @ preorder ?R @ ys"
    by blast
  have pR: "preorder ?R = ?R # ?B" by (simp add: preorder.simps[of ?R])
  from split_list[OF t] obtain b1 b2 where B: "?B = b1 @ t # b2" by blast
  have all: "concat (map preorder files) =
      concat (map preorder fs1) @ xs @ ?R # b1 @ t # b2 @ ys @ concat (map preorder fs2)"
    using files pf pR B by simp
  from dist have d1: "addr t \<notin> addr ` set (concat (map preorder fs1))"
    and d2: "addr t \<notin> addr ` set xs" and d3: "addr t \<noteq> a" and d4: "addr t \<notin> addr ` set b1"
    unfolding all by auto
  from d1 have "\<not> list_ex (\<lambda>m. addr m = addr t) (concat (map preorder fs1))"
    unfolding list_ex_iff by (metis imageI)
  then have skip: "astPath files t = astPath (f # fs2) t"
    unfolding files by (rule astPath_skip)
  have pf': "preorder f = (xs @ ?R # b1) @ t # (b2 @ ys)"
    using pf pR B by simp
  have tw: "takeWhile (\<lambda>m. addr m \<noteq> addr t) (preorder f) = xs @ ?R # b1"
    unfolding pf' using d2 d3 d4
    by (subst takeWhile_append2) (auto simp: image_iff)
  have ex: "list_ex (\<lambda>m. addr m = addr t) (preorder f)"
    unfolding pf' by (simp add: list_ex_iff)
  have ap: "astPath files t = (xs @ ?R # b1, True)"
    unfolding skip using tw ex by (simp add: Inspect_astPath)
  from nonest B have nb: "\<And>m. m \<in> set b1 \<Longrightarrow> \<not> isFuncDecl m"
    by (auto simp: list_ex_iff)
  have "find isFuncDecl (rev b1) = None"
    using nb by (simp add: find_None_iff)
  then have "lastFuncDecl (xs @ ?R # b1) = Some ?R"
    by (simp add: lastFuncDecl_def find_app)
  with ap show ?thesis by simp
qed

lemma instVisit_found [simp]: "instVisit T n True = (False, True)"
  by (cases n) simp_all

lemma instVisit_not_found [simp]:
  "instVisit T n False = (if literalOf T n then (False, True) else (True, False))"
  by (cases "(T, n)" rule: literalOf.cases) (simp_all split: option.splits)

lemma Inspect_instVisit_found [simp]: "Inspect (instVisit T) n True = True"
  by (simp add: Inspect.simps)

lemma fold_Inspect_instVisit_found [simp]: "fold (Inspect (instVisit T)) ns True = True"
  by (induction ns) simp_all

lemma fold_Inspect_instVisit:
  assumes "\<And>c. c \<in> set ns \<Longrightarrow>
             Inspect (instVisit T) c False = list_ex (literalOf T) (preorder c)"
  shows "fold (Inspect (instVisit T)) ns False =
           list_ex (literalOf T) (concat (map preorder ns))"
  using assms
proof (induction ns)
  case Nil
  then show ?case by simp
next
  case (Cons c ns)
  then show ?case
    by (cases "list_ex (literalOf T) (preorder c)") simp_all
qed

lemma Inspect_instVisit:
  "Inspect (instVisit T) n False = list_ex (literalOf T) (preorder n)"
proof (induction n rule: preorder.induct)
  case (1 n)
  have "fold (Inspect (instVisit T)) (children n) False =
          list_ex (literalOf T) (concat (map preorder (children n)))"
    by (rule fold_Inspect_instVisit) (rule "1.IH")
  then show ?case
    by (simp add: Inspect.simps[of _ n] preorder.simps[of n])
qed

lemma fold_Inspect_instVisit_eq:
  "fold (Inspect (instVisit T)) ns False = list_ex (literalOf T) (concat (map preorder ns))"
  by (rule fold_Inspect_instVisit) (rule Inspect_instVisit)

section \<open>The index of markers\<close>

lemma fold_upd_dom:
  "dom (fold (\<lambda>x m. m(kf x \<mapsto> vf x)) xs m) = dom m \<union> kf ` set xs"
  by (induction xs arbitrary: m) auto

lemma fold_upd_Some:
  "fold (\<lambda>x m. m(kf x \<mapsto> vf x)) xs m k = Some q \<Longrightarrow>
   m k = Some q \<or> (\<exists>x\<in>set xs. kf x = k \<and> vf x = q)"
proof (induction xs arbitrary: m)
  case Nil
  then show ?case by simp
next
  case (Cons x xs)
  from Cons.prems have "fold (\<lambda>x m. m(kf x \<mapsto> vf x)) xs (m(kf x \<mapsto> vf x)) k = Some q"
    by (simp del: fun_upd_apply)
  from Cons.IH[OF this] show ?case
    by (auto split: if_splits)
qed

lemma hasConstMarker_comments:
  "hasConstMarker f \<Longrightarrow> \<not> (Doc f = None \<and> Comment f = None)"
  by (auto simp: hasConstMarker_def Let_def split: option.splits)

lemma markField_dom:
  "dom (markField T f cf) =
     dom cf \<union> (if hasConstMarker f then (\<lambda>name. ConstField T (Name name)) ` set (Names f) else {})"
  using hasConstMarker_comments[of f]
  by (auto simp: markField_def fold_upd_dom)

lemma markField_Some:
  "markField T f cf k = Some q \<Longrightarrow>
   cf k = Some q \<or>
   (hasConstMarker f \<and> (\<exists>name\<in>set (Names f). k = ConstField T (Name name) \<and> q = NamePos name))"
  by (auto simp: markField_def dest!: fold_upd_Some split: if_splits)

lemma fold_markField_mono:
  "k \<in> dom cf \<Longrightarrow> k \<in> dom (fold (markField T) fl cf)"
  by (induction fl arbitrary: cf) (simp_all add: markField_dom)

lemma fold_markField_dom:
  "f \<in> set fl \<Longrightarrow> hasConstMarker f \<Longrightarrow> Id F q \<in> set (Names f) \<Longrightarrow>
   ConstField T F \<in> dom (fold (markField T) fl cf)"
proof (induction fl arbitrary: cf)
  case Nil
  then show ?case by simp
next
  case (Cons g fl)
  show ?case
  proof (cases "f = g")
    case True
    from Cons.prems(3) have "ConstField T (Name (Id F q)) \<in> (\<lambda>name. ConstField T (Name name)) ` set (Names f)"
      by (rule imageI)
    with True Cons.prems(2) have "ConstField T F \<in> dom (markField T g cf)"
      unfolding markField_dom by simp
    then show ?thesis by (simp add: fold_markField_mono)
  next
    case False
    with Cons show ?thesis by simp
  qed
qed

lemma fold_markField_Some:
  "fold (markField T) fl cf k = Some q \<Longrightarrow>
   cf k = Some q \<or>
   (\<exists>f\<in>set fl. hasConstMarker f \<and> structType k = T \<and> Id (fieldName k) q \<in> set (Names f))"
proof (induction fl arbitrary: cf)
  case Nil
  then show ?case by simp
next
  case (Cons g fl)
  from Cons.prems have "fold (markField T) fl (markField T g cf) k = Some q"
    by simp
  from Cons.IH[OF this] show ?case
  proof
    assume "markField T g cf k = Some q"
    from markField_Some[OF this] show ?thesis
    proof
      assume "cf k = Some q" then show ?thesis by simp
    next
      assume "hasConstMarker g \<and> (\<exists>name\<in>set (Names g). k = ConstField T (Name name) \<and> q = NamePos name)"
      then obtain name where "hasConstMarker g" "name \<in> set (Names g)"
        "k = ConstField T (Name name)" "q = NamePos name" by blast
      then show ?thesis by (cases name) auto
    qed
  next
    assume "\<exists>f\<in>set fl. hasConstMarker f \<and> structType k = T \<and> Id (fieldName k) q \<in> set (Names f)"
    then show ?thesis by auto
  qed
qed

subsection \<open>The table of fields\<close>

lemma indexNode_fst_mono:
  "k \<in> dom (fst s) \<Longrightarrow> k \<in> dom (fst (indexNode pass n s))"
  by (cases "(pass, n, s)" rule: indexNode.cases)
     (auto simp: fold_markField_mono split: option.splits)

lemma fold_indexNode_fst_mono:
  "k \<in> dom (fst s) \<Longrightarrow> k \<in> dom (fst (fold (indexNode pass) ns s))"
  by (induction ns arbitrary: s) (simp_all add: indexNode_fst_mono)

lemma indexNode_marked:
  assumes "markedIn T F q n"
  shows "ConstField T F \<in> dom (fst (indexNode pass n s))"
proof (cases "(T, F, q, n)" rule: markedIn.cases)
  case (1 T' F' q' a typeName fieldList)
  with assms obtain f where f: "f \<in> set fieldList" "hasConstMarker f" "Id F q \<in> set (Names f)"
    and T: "typeName = T" "obj_class T = TypeNameObj"
    by (auto simp: list_ex_iff)
  have "ConstField T F \<in> dom (fold (markField T) fieldList (fst s))"
    using f by (rule fold_markField_dom)
  with 1 T show ?thesis by (cases s) (simp del: domIff)
qed (use assms in simp_all)

lemma fold_indexNode_marked:
  "n \<in> set ns \<Longrightarrow> markedIn T F q n \<Longrightarrow>
   ConstField T F \<in> dom (fst (fold (indexNode pass) ns s))"
proof (induction ns arbitrary: s)
  case Nil
  then show ?case by simp
next
  case (Cons m ns)
  show ?case
  proof (cases "n = m")
    case True
    with Cons.prems show ?thesis
      by (simp add: fold_indexNode_fst_mono indexNode_marked del: domIff)
  next
    case False
    with Cons show ?thesis by simp
  qed
qed

lemma indexNode_Some:
  "fst (indexNode pass n s) k = Some q \<Longrightarrow>
   fst s k = Some q \<or> markedIn (structType k) (fieldName k) q n"
  by (cases "(pass, n, s)" rule: indexNode.cases)
     (auto simp: list_ex_iff dest!: fold_markField_Some split: option.splits if_splits)

lemma fold_indexNode_Some:
  "fst (fold (indexNode pass) ns s) k = Some q \<Longrightarrow>
   fst s k = Some q \<or> (\<exists>n\<in>set ns. markedIn (structType k) (fieldName k) q n)"
proof (induction ns arbitrary: s)
  case Nil
  then show ?case by simp
next
  case (Cons m ns)
  from Cons.prems have "fst (fold (indexNode pass) ns (indexNode pass m s)) k = Some q"
    by simp
  from Cons.IH[OF this] indexNode_Some[of pass m s k q]
  show ?case by auto
qed

lemma markedIn_isTypeSpec: "markedIn T F q n \<Longrightarrow> isTypeSpec n"
  by (cases "(T, F, q, n)" rule: markedIn.cases) simp_all

lemma index_field_complete:
  assumes "fieldMarkedAt pass T F q"
  shows "ConstField T F \<in> dom (fst (buildIndex pass))"
proof -
  from assms obtain n where n: "n \<in> set (allNodes pass)" "markedIn T F q n"
    by (auto simp: fieldMarkedAt_def list_ex_iff)
  then have "n \<in> set (filter (\<lambda>n. isTypeSpec n \<or> isFuncDecl n) (allNodes pass))"
    by (simp add: markedIn_isTypeSpec)
  then show ?thesis
    unfolding buildIndex_def using n(2) by (rule fold_indexNode_marked)
qed

lemma index_field_sound:
  "fst (buildIndex pass) (ConstField T F) = Some q \<Longrightarrow> fieldMarkedAt pass T F q"
  unfolding fieldMarkedAt_def buildIndex_def list_ex_iff
  by (auto dest!: fold_indexNode_Some)

subsection \<open>The table of parameters\<close>

lemma markParams_dom:
  "dom (markParams pass d cp) =
     dom cp \<union> (\<lambda>P. ConstParam (fd_Name d) P (PkgPath pass)) ` set (paramNames d)"
  by (simp add: markParams_def fold_upd_dom)

lemma indexNode_snd_mono:
  "k \<in> dom (snd s) \<Longrightarrow> k \<in> dom (snd (indexNode pass n s))"
  by (cases "(pass, n, s)" rule: indexNode.cases)
     (auto simp: markParams_dom split: option.splits simp del: domIff)

lemma fold_indexNode_snd_mono:
  "k \<in> dom (snd s) \<Longrightarrow> k \<in> dom (snd (fold (indexNode pass) ns s))"
  by (induction ns arbitrary: s) (simp_all add: indexNode_snd_mono)

lemma fold_indexNode_param:
  "FuncDecl a d body \<in> set ns \<Longrightarrow> P \<in> set (paramNames d) \<Longrightarrow>
   ConstParam (fd_Name d) P (PkgPath pass) \<in> dom (snd (fold (indexNode pass) ns s))"
proof (induction ns arbitrary: s)
  case Nil
  then show ?case by simp
next
  case (Cons m ns)
  show ?case
  proof (cases "m = FuncDecl a d body")
    case True
    have "ConstParam (fd_Name d) P (PkgPath pass) \<in> dom (snd (indexNode pass m s))"
      using True Cons.prems(2) by (cases s) (simp add: markParams_dom del: domIff)
    then show ?thesis by (simp add: fold_indexNode_snd_mono)
  next
    case False
    with Cons show ?thesis by auto
  qed
qed

lemma index_param_complete:
  "FuncDecl a d body \<in> set (allNodes pass) \<Longrightarrow> P \<in> set (paramNames d) \<Longrightarrow>
   ConstParam (fd_Name d) P (PkgPath pass) \<in> dom (snd (buildIndex pass))"
  unfolding buildIndex_def
  by (rule fold_indexNode_param) simp_all





section \<open>The checks at a write inside a function\<close>

lemma child_in_preorder: "c \<in> set (children n) \<Longrightarrow> c \<in> set (preorder n)"
  by (subst preorder.simps) (auto intro: preorder_self)

lemma preorder_trans:
  assumes "m \<in> set (preorder c)" and "c \<in> set (preorder n)"
  shows "m \<in> set (preorder n)"
proof -
  from preorder_subtree[OF assms(2)] obtain xs ys where "preorder n = xs @ preorder c @ ys"
    by blast
  with assms(1) show ?thesis by simp
qed

lemma lhs_in_body:
  assumes "AssignStmt sa lhs tok rhs \<in> set (concat (map preorder body))" and "t \<in> set lhs"
  shows "t \<in> set (concat (map preorder body))"
proof -
  from assms(1) obtain b where b: "b \<in> set body" "AssignStmt sa lhs tok rhs \<in> set (preorder b)"
    by auto
  from assms(2) have "t \<in> set (preorder (AssignStmt sa lhs tok rhs))"
    by (intro child_in_preorder) simp
  then have "t \<in> set (preorder b)" using b(2) by (rule preorder_trans)
  with b(1) show ?thesis by auto
qed

lemma body_in_allNodes:
  assumes "FuncDecl a d (Some body) \<in> set (allNodes pass)" and "m \<in> set (concat (map preorder body))"
  shows "m \<in> set (allNodes pass)"
proof -
  from assms(2) have "m \<in> set (preorder (FuncDecl a d (Some body)))"
    by (subst preorder.simps) simp
  moreover from assms(1) obtain f where "f \<in> set (Files pass)" "FuncDecl a d (Some body) \<in> set (preorder f)"
    by (auto simp: allNodes_def)
  ultimately show ?thesis
    by (auto simp: allNodes_def intro: preorder_trans)
qed

lemma checkAll_mem:
  assumes "checkAll f xs = Inr ds" and "x \<in> set xs"
  shows "\<exists>dx. f x = Inr dx \<and> set dx \<subseteq> set ds"
  using assms
proof (induction xs arbitrary: ds)
  case Nil
  then show ?case by simp
next
  case (Cons y ys)
  from Cons.prems(1) obtain dy dys where y: "f y = Inr dy" and ys: "checkAll f ys = Inr dys"
    and ds: "ds = dy @ dys"
    by (auto split: sum.splits)
  show ?case
  proof (cases "x = y")
    case True
    with y ds show ?thesis by simp
  next
    case False
    with Cons.prems(2) have "x \<in> set ys" by simp
    from Cons.IH[OF ys this] ds show ?thesis by auto
  qed
qed

lemma checkAll_sound:
  assumes "checkAll f xs = Inr ds" and "d \<in> set ds"
  shows "\<exists>x dx. x \<in> set xs \<and> f x = Inr dx \<and> d \<in> set dx"
  using assms
proof (induction xs arbitrary: ds)
  case Nil
  then show ?case by simp
next
  case (Cons y ys)
  from Cons.prems(1) obtain dy dys where y: "f y = Inr dy" and ys: "checkAll f ys = Inr dys"
    and ds: "ds = dy @ dys"
    by (auto split: sum.splits)
  from Cons.prems(2) ds consider "d \<in> set dy" | "d \<in> set dys" by auto
  then show ?case
  proof cases
    case 1
    with y show ?thesis by auto
  next
    case 2
    from Cons.IH[OF ys 2] show ?thesis by auto
  qed
qed


lemma checkAll_empty:
  assumes "\<And>x. x \<in> set xs \<Longrightarrow> f x = Inr []"
  shows "checkAll f xs = Inr []"
  using assms by (induction xs) simp_all

lemma run_contains:
  assumes "AssignStmt sa lhs tok rhs \<in> set (allNodes pass)" and "tok \<noteq> DEFINE" and "t \<in> set lhs"
    and "run pass = Inr ds"
  shows "\<exists>dt. checkLhs pass (fst (buildIndex pass)) (snd (buildIndex pass)) t = Inr dt
           \<and> set dt \<subseteq> set ds"
proof -
  let ?cf = "fst (buildIndex pass)" and ?cp = "snd (buildIndex pass)"
  have r: "checkAll (checkStmt pass ?cf ?cp) (filter isAssignStmt (allNodes pass)) = Inr ds"
    using assms(4) by (simp add: run_def case_prod_unfold)
  have "AssignStmt sa lhs tok rhs \<in> set (filter isAssignStmt (allNodes pass))"
    using assms(1) by simp
  from checkAll_mem[OF r this] obtain dst
    where st: "checkStmt pass ?cf ?cp (AssignStmt sa lhs tok rhs) = Inr dst" and sub: "set dst \<subseteq> set ds"
    by blast
  from st assms(2) have "checkAll (checkLhs pass ?cf ?cp) lhs = Inr dst" by simp
  from checkAll_mem[OF this assms(3)] obtain dt
    where "checkLhs pass ?cf ?cp t = Inr dt" "set dt \<subseteq> set dst" by blast
  with sub show ?thesis by blast
qed

lemma astPathVisit_addr: "addr t = addr t' \<Longrightarrow> astPathVisit t = astPathVisit t'"
  by (simp add: astPathVisit_def fun_eq_iff)

lemma astPath_addr: "addr t = addr t' \<Longrightarrow> astPath files t = astPath files t'"
  by (induction files) (simp_all add: astPathVisit_addr[of t t'])

lemma isInstanciator_addr:
  "addr t = addr t' \<Longrightarrow> isInstanciator pass t T = isInstanciator pass t' T"
  by (simp add: isInstanciator_def astPath_addr[of t t'])

lemma isInstanciator_in_func:
  assumes "distinct (map addr (allNodes pass))"
    and "FuncDecl a d (Some body) \<in> set (allNodes pass)"
    and "\<not> list_ex isFuncDecl (concat (map preorder body))"
    and "t \<in> set (concat (map preorder body))"
  shows "isInstanciator pass t T = Inr (list_ex (literalOf T) (concat (map preorder body)))"
  using enclosing_funcDecl[OF assms(1,2)[unfolded allNodes_def] assms(4,3)]
  by (simp add: isInstanciator_def fold_Inspect_instVisit_eq)


subsection \<open>A pass without panic\<close>








section \<open>The markers in comments\<close>

lemma Index_Some_iff: "Index s sub \<noteq> None \<longleftrightarrow> (\<exists>pre post. s = pre @ sub @ post)"
proof (induction s)
  case Nil
  then show ?case by auto
next
  case (Cons c s)
  show ?case
  proof (cases "prefix sub (c # s)")
    case True
    then obtain post where "c # s = [] @ sub @ post" by (auto simp: prefix_def)
    with True show ?thesis by (metis Index.simps(2) option.distinct(1))
  next
    case False
    have "(\<exists>pre post. c # s = pre @ sub @ post) \<longleftrightarrow> (\<exists>pre post. s = pre @ sub @ post)"
    proof
      assume "\<exists>pre post. c # s = pre @ sub @ post"
      then obtain pre post where e: "c # s = pre @ sub @ post" by blast
      with False have "pre \<noteq> []" by (auto simp: prefix_def)
      then obtain pre' where "pre = c # pre'" using e by (cases pre) auto
      with e show "\<exists>pre post. s = pre @ sub @ post" by auto
    next
      assume "\<exists>pre post. s = pre @ sub @ post"
      then obtain pre post where "s = pre @ sub @ post" by blast
      then have "c # s = (c # pre) @ sub @ post" by simp
      then show "\<exists>pre post. c # s = pre @ sub @ post" by blast
    qed
    moreover have "Index (c # s) sub \<noteq> None \<longleftrightarrow> Index s sub \<noteq> None"
      using False by (cases "Index s sub") simp_all
    ultimately show ?thesis using Cons.IH by blast
  qed
qed

lemma Contains_iff: "Contains s sub \<longleftrightarrow> (\<exists>pre post. s = pre @ sub @ post)"
  unfolding Contains_def by (rule Index_Some_iff)

lemma Contains_append:
  assumes "Contains s (a @ b)"
  shows "Contains s a"
proof -
  from assms obtain pre post where "s = pre @ (a @ b) @ post"
    unfolding Contains_iff by blast
  then have "s = pre @ a @ (b @ post)" by simp
  then show ?thesis unfolding Contains_iff by blast
qed

subsection \<open>The bytes that TrimSpace removes\<close>

text \<open>
  Every byte that \<open>TrimSpace\<close> removes is an ASCII white space or a byte of a multi-byte
  encoding (at least \<open>0x80\<close>); none is \<open>/\<close> or \<open>:\<close>.
\<close>

lemma isSpace_wsByte: "isSpace c \<Longrightarrow> wsByte c"
  by (simp add: wsByte_def)

lemma isSpace2_wsByte: "isSpace2 b0 b1 \<Longrightarrow> wsByte b0 \<and> wsByte b1"
  by (auto simp: isSpace2_def wsByte_def)

lemma isSpace3_wsByte: "isSpace3 b0 b1 b2 \<Longrightarrow> wsByte b0 \<and> wsByte b1 \<and> wsByte b2"
  by (auto simp: isSpace3_def wsByte_def)

lemma wsByte_not_slash: "wsByte c \<Longrightarrow> c \<noteq> CHR ''/''"
  by (auto simp: wsByte_def isSpace_def)

lemma wsByte_not_colon: "wsByte c \<Longrightarrow> c \<noteq> CHR '':''"
  by (auto simp: wsByte_def isSpace_def)

lemma spaceWidth_bytes: "\<forall>c\<in>set (take (spaceWidth s) s). wsByte c"
  by (cases s rule: spaceWidth.cases)
    (auto dest: isSpace_wsByte isSpace2_wsByte isSpace3_wsByte)

lemma spaceWidthEnd_bytes: "\<forall>c\<in>set (take (spaceWidthEnd r) r). wsByte c"
  by (cases r rule: spaceWidthEnd.cases)
    (auto dest: isSpace_wsByte isSpace2_wsByte isSpace3_wsByte)

lemma TrimLeftSpace_decompose:
  "\<exists>ws. s = ws @ TrimLeftSpace s \<and> (\<forall>c\<in>set ws. wsByte c)"
proof (induction s rule: TrimLeftSpace.induct)
  case (1 s)
  show ?case
  proof (cases "spaceWidth s = 0")
    case True
    then have "s = [] @ TrimLeftSpace s" by (simp add: TrimLeftSpace.simps[of s])
    then show ?thesis by (metis empty_iff list.set(1))
  next
    case False
    from "1.IH"[OF False] obtain ws
      where ws: "drop (spaceWidth s) s = ws @ TrimLeftSpace (drop (spaceWidth s) s)"
        and b: "\<forall>c\<in>set ws. wsByte c" by blast
    have t: "TrimLeftSpace s = TrimLeftSpace (drop (spaceWidth s) s)"
      using False by (simp add: TrimLeftSpace.simps[of s])
    have "s = take (spaceWidth s) s @ drop (spaceWidth s) s" by simp
    with ws t have "s = (take (spaceWidth s) s @ ws) @ TrimLeftSpace s" by simp
    moreover have "\<forall>c\<in>set (take (spaceWidth s) s @ ws). wsByte c"
      using b spaceWidth_bytes[of s] by auto
    ultimately show ?thesis by blast
  qed
qed

lemma TrimRightSpaceRev_decompose:
  "\<exists>ws. r = ws @ TrimRightSpaceRev r \<and> (\<forall>c\<in>set ws. wsByte c)"
proof (induction r rule: TrimRightSpaceRev.induct)
  case (1 r)
  show ?case
  proof (cases "spaceWidthEnd r = 0")
    case True
    then have "r = [] @ TrimRightSpaceRev r" by (simp add: TrimRightSpaceRev.simps[of r])
    then show ?thesis by (metis empty_iff list.set(1))
  next
    case False
    from "1.IH"[OF False] obtain ws
      where ws: "drop (spaceWidthEnd r) r = ws @ TrimRightSpaceRev (drop (spaceWidthEnd r) r)"
        and b: "\<forall>c\<in>set ws. wsByte c" by blast
    have t: "TrimRightSpaceRev r = TrimRightSpaceRev (drop (spaceWidthEnd r) r)"
      using False by (simp add: TrimRightSpaceRev.simps[of r])
    have "r = take (spaceWidthEnd r) r @ drop (spaceWidthEnd r) r" by simp
    with ws t have "r = (take (spaceWidthEnd r) r @ ws) @ TrimRightSpaceRev r" by simp
    moreover have "\<forall>c\<in>set (take (spaceWidthEnd r) r @ ws). wsByte c"
      using b spaceWidthEnd_bytes[of r] by auto
    ultimately show ?thesis by blast
  qed
qed

lemma TrimSpace_decompose:
  "\<exists>ws1 ws2. s = ws1 @ TrimSpace s @ ws2 \<and> (\<forall>c\<in>set ws1. wsByte c) \<and> (\<forall>c\<in>set ws2. wsByte c)"
proof -
  from TrimLeftSpace_decompose[of s] obtain ws1
    where 1: "s = ws1 @ TrimLeftSpace s" and b1: "\<forall>c\<in>set ws1. wsByte c" by blast
  from TrimRightSpaceRev_decompose[of "rev (TrimLeftSpace s)"] obtain ws
    where 2: "rev (TrimLeftSpace s) = ws @ TrimRightSpaceRev (rev (TrimLeftSpace s))"
      and b2: "\<forall>c\<in>set ws. wsByte c" by blast
  from 2 have "rev (rev (TrimLeftSpace s)) = rev (ws @ TrimRightSpaceRev (rev (TrimLeftSpace s)))"
    by (rule arg_cong)
  then have "TrimLeftSpace s = TrimSpace s @ rev ws"
    by (simp add: TrimSpace_def)
  with 1 have "s = ws1 @ TrimSpace s @ rev ws" by simp
  moreover from b2 have "\<forall>c\<in>set (rev ws). wsByte c" by simp
  ultimately show ?thesis using b1 by blast
qed


subsection \<open>The marker for all parameters holds no list\<close>

lemma Index_skip_space:
  assumes "wsByte w"
  shows "Index (w # s) ''// +const:['' = map_option Suc (Index s ''// +const:['')"
proof -
  have "\<not> prefix ''// +const:['' (w # s)"
  proof
    assume "prefix ''// +const:['' (w # s)"
    then have "w = CHR ''/''" by simp
    with wsByte_not_slash[OF assms] show False by simp
  qed
  then show ?thesis by (simp only: Index.simps if_False)
qed

lemma Index_spaces:
  "\<forall>c\<in>set ws. wsByte c \<Longrightarrow> Index ws ''// +const:['' = None"
proof (induction ws)
  case Nil
  show ?case by simp
next
  case (Cons w ws)
  then have "wsByte w" and "Index ws ''// +const:['' = None" by simp_all
  then show ?case by (simp only: Index_skip_space option.map)
qed

lemma marker_then_spaces:
  assumes "\<forall>c\<in>set ws2. wsByte c"
  shows "Index (''// +const'' @ ws2) ''// +const:['' = None"
proof -
  have "\<not> prefix '':['' ws2"
  proof (cases ws2)
    case Nil
    then show ?thesis by simp
  next
    case (Cons c cs)
    with assms have "wsByte c" by simp
    from wsByte_not_colon[OF this] Cons show ?thesis by simp
  qed
  then show ?thesis using Index_spaces[OF assms] by simp
qed

lemma no_list_in_marker:
  assumes "\<forall>c\<in>set ws1. wsByte c" and "\<forall>c\<in>set ws2. wsByte c"
  shows "Index (ws1 @ ''// +const'' @ ws2) ''// +const:['' = None"
  using assms(1)
proof (induction ws1)
  case Nil
  show ?case using marker_then_spaces[OF assms(2)] by (simp only: append_Nil)
next
  case (Cons w ws1)
  then have "wsByte w" and "Index (ws1 @ ''// +const'' @ ws2) ''// +const:['' = None"
    by simp_all
  then show ?case by (simp only: append_Cons Index_skip_space option.map)
qed

lemma TrimSpace_eqD:
  assumes "TrimSpace s = m"
  shows "\<exists>ws1 ws2. s = ws1 @ m @ ws2 \<and> (\<forall>c\<in>set ws1. wsByte c) \<and> (\<forall>c\<in>set ws2. wsByte c)"
  using TrimSpace_decompose[of s] unfolding assms .

lemma standalone_no_explicitList:
  assumes "TrimSpace line = ''// +const''"
  shows "explicitList line = None"
proof -
  from TrimSpace_eqD[OF assms] obtain ws1 ws2
    where l: "line = ws1 @ ''// +const'' @ ws2"
      and w1: "\<forall>c\<in>set ws1. wsByte c" and w2: "\<forall>c\<in>set ws2. wsByte c"
    by blast
  have "Index (ws1 @ ''// +const'' @ ws2) ''// +const:['' = None"
    using w1 w2 by (rule no_list_in_marker)
  then have "Index line ''// +const:['' = None" by (subst l)
  then show ?thesis by (simp only: explicitList_def option.case)
qed

lemma scanDoc_standalone:
  assumes "TrimSpace text = ''// +const''" and "\<forall>t\<in>set pre. explicitList t = None"
  shows "scanDoc (pre @ text # post) = ([], True)"
  using assms(2)
proof (induction pre)
  case Nil
  then show ?case using assms(1) by (simp add: standalone_no_explicitList)
next
  case (Cons t pre)
  then show ?case by simp
qed

subsection \<open>The explicit list\<close>











subsection \<open>Entries written with one position\<close>

lemma fold_upd_const_keep:
  "m k = Some v \<Longrightarrow> fold (\<lambda>x m. m(kf x \<mapsto> v)) xs m k = Some v"
  by (induction xs arbitrary: m) simp_all

lemma fold_upd_const:
  "x0 \<in> set xs \<Longrightarrow> fold (\<lambda>x m. m(kf x \<mapsto> v)) xs m (kf x0) = Some v"
proof (induction xs arbitrary: m)
  case Nil
  then show ?case by simp
next
  case (Cons x xs)
  show ?case
  proof (cases "x0 = x")
    case True
    have "fold (\<lambda>x m. m(kf x \<mapsto> v)) xs (m(kf x \<mapsto> v)) (kf x) = Some v"
      by (rule fold_upd_const_keep) simp
    with True show ?thesis by (simp del: fun_upd_apply)
  next
    case False
    with Cons show ?thesis by simp
  qed
qed

section \<open>Example packages\<close>

subsection \<open>The package of the analyzer's tests, in part\<close>

text \<open>
  \<^verbatim>\<open>
  type Person struct {
      // +const
      Name string
      // This is mutable
      Age int
      Email string // +const
  }
  // SetName sets the name of the person.
  func (p *Person) SetName(name string) { p.Name = name }
  // CreatePerson is a constructor function.
  func CreatePerson() *Person { p := &Person{}; p.Name = "Alice"; return p }
  // UpdatePersonObject updates a person object but p is const.
  // +const:[p]
  func UpdatePersonObject(p *Person) { p = &Person{}; p.Name = "Bob" }
  \<close>
\<close>

definition Person :: object where
  "Person = Object 1 TypeNameObj ''Person'' 20"

definition personSpec :: node where
  "personSpec = TypeSpec 2 (Some Person) (Some [
      \<lparr>Doc = Some [''// +const''], Comment = None, Names = [Id ''Name'' 40]\<rparr>,
      \<lparr>Doc = Some [''// This is mutable''], Comment = None, Names = [Id ''Age'' 60]\<rparr>,
      \<lparr>Doc = None, Comment = Some [''// +const''], Names = [Id ''Email'' 70]\<rparr>])"

definition posText :: "pos \<Rightarrow> string" where
  "posText p =
     (if p = 40 then ''person.go:5:2'' else if p = 70 then ''person.go:10:2''
      else if p = 300 then ''person.go:30:1'' else ''-'')"

definition ptrPerson :: selection where
  "ptrPerson = Selection FieldVal (Some (Pointer (Named Person [])))"

definition setNameDecl :: func_decl where
  "setNameDecl =
     \<lparr>fd_Doc = Some [''// SetName sets the name of the person.''],
      fd_Recv = Some (Pointer (Named Person [])), fd_Name = ''SetName'', fd_Pos = 100,
      fd_Params = Some [\<lparr>Doc = None, Comment = None, Names = [Id ''name'' 125]\<rparr>],
      fd_Results = []\<rparr>"

definition setNameTarget :: node where
  "setNameTarget =
     SelectorExpr 5 140 (Ident 6 ''p'' 140 (Some (Object 7 VarObj ''p'' 106))) ''Name'' (Some ptrPerson)"

definition setNameBody :: "node list" where
  "setNameBody =
     [AssignStmt 4 [setNameTarget] ASSIGN [Ident 8 ''name'' 149 (Some (Object 9 VarObj ''name'' 125))]]"

definition createPersonDecl :: func_decl where
  "createPersonDecl =
     \<lparr>fd_Doc = Some [''// CreatePerson is a constructor function.''],
      fd_Recv = None, fd_Name = ''CreatePerson'', fd_Pos = 200,
      fd_Params = Some [], fd_Results = [Pointer (Named Person [])]\<rparr>"

definition createPersonTarget :: node where
  "createPersonTarget =
     SelectorExpr 17 250 (Ident 18 ''p'' 250 (Some (Object 13 VarObj ''p'' 230))) ''Name'' (Some ptrPerson)"

definition createPersonBody :: "node list" where
  "createPersonBody =
     [AssignStmt 11 [Ident 12 ''p'' 230 (Some (Object 13 VarObj ''p'' 230))] DEFINE
        [OtherNode 14 [CompositeLit 15 (Some (Named Person [])) []]],
      AssignStmt 16 [createPersonTarget] ASSIGN [OtherNode 19 []],
      OtherNode 20 [Ident 21 ''p'' 280 (Some (Object 13 VarObj ''p'' 230))]]"

definition updatePersonObjectDecl :: func_decl where
  "updatePersonObjectDecl =
     \<lparr>fd_Doc = Some [''// UpdatePersonObject updates a person object but p is const.'',
                     ''// +const:[p]''],
      fd_Recv = None, fd_Name = ''UpdatePersonObject'', fd_Pos = 300,
      fd_Params = Some [\<lparr>Doc = None, Comment = None, Names = [Id ''p'' 324]\<rparr>],
      fd_Results = []\<rparr>"

definition updatePersonObjectTarget :: node where
  "updatePersonObjectTarget = Ident 32 ''p'' 340 (Some (Object 33 VarObj ''p'' 324))"

definition updatePersonObjectBody :: "node list" where
  "updatePersonObjectBody =
     [AssignStmt 31 [updatePersonObjectTarget] ASSIGN
        [OtherNode 34 [CompositeLit 35 (Some (Named Person [])) []]],
      AssignStmt 36
        [SelectorExpr 37 360 (Ident 38 ''p'' 360 (Some (Object 33 VarObj ''p'' 324))) ''Name''
           (Some ptrPerson)]
        ASSIGN [OtherNode 39 []]]"

definition people :: pass where
  "people =
     \<lparr>Files = [File 0 [GenDecl 1 [personSpec],
                       FuncDecl 3 setNameDecl (Some setNameBody),
                       FuncDecl 10 createPersonDecl (Some createPersonBody),
                       FuncDecl 30 updatePersonObjectDecl (Some updatePersonObjectBody)]],
      PkgPath = ''a'', Position = posText\<rparr>"

subsection \<open>Functions that follow a constructor convention and build no literal\<close>

text \<open>
  \<^verbatim>\<open>
  // NewName gives the person a new name.
  func (p *Person) NewName(name string) { p.Name = name }
  // Rename returns the person under a new name.
  func Rename(p *Person, name string) *Person { p.Name = name; return p }
  \<close>
\<close>

definition newNameDecl :: func_decl where
  "newNameDecl =
     \<lparr>fd_Doc = Some [''// NewName gives the person a new name.''],
      fd_Recv = Some (Pointer (Named Person [])), fd_Name = ''NewName'', fd_Pos = 100,
      fd_Params = Some [\<lparr>Doc = None, Comment = None, Names = [Id ''name'' 125]\<rparr>],
      fd_Results = []\<rparr>"

definition renameDecl :: func_decl where
  "renameDecl =
     \<lparr>fd_Doc = Some [''// Rename returns the person under a new name.''],
      fd_Recv = None, fd_Name = ''Rename'', fd_Pos = 200,
      fd_Params = Some [\<lparr>Doc = None, Comment = None, Names = [Id ''p'' 212]\<rparr>,
                        \<lparr>Doc = None, Comment = None, Names = [Id ''name'' 223]\<rparr>],
      fd_Results = [Pointer (Named Person [])]\<rparr>"

definition renames :: pass where
  "renames =
     \<lparr>Files = [File 0 [GenDecl 1 [personSpec],
         FuncDecl 3 newNameDecl (Some
           [AssignStmt 4
              [SelectorExpr 5 140 (Ident 6 ''p'' 140 (Some (Object 7 VarObj ''p'' 106))) ''Name''
                 (Some ptrPerson)]
              ASSIGN [Ident 8 ''name'' 149 (Some (Object 9 VarObj ''name'' 125))]]),
         FuncDecl 10 renameDecl (Some
           [AssignStmt 11
              [SelectorExpr 12 240 (Ident 13 ''p'' 240 (Some (Object 14 VarObj ''p'' 212))) ''Name''
                 (Some ptrPerson)]
              ASSIGN [Ident 15 ''name'' 249 (Some (Object 16 VarObj ''name'' 223))],
            OtherNode 17 [Ident 18 ''p'' 267 (Some (Object 14 VarObj ''p'' 212))]])]],
      PkgPath = ''a'', Position = posText\<rparr>"

subsection \<open>A second type of the same name\<close>

text \<open>
  \<^verbatim>\<open>
  func Local() {
      type Person struct { Name string }
      var q Person
      q.Name = "x"
  }
  \<close>
  beside the declaration of the package's \<open>Person\<close>, whose \<open>Name\<close> is marked.
\<close>

definition localPerson :: object where
  "localPerson = Object 51 TypeNameObj ''Person'' 420"

definition localTarget :: node where
  "localTarget =
     SelectorExpr 47 460 (Ident 48 ''q'' 460 (Some (Object 49 VarObj ''q'' 445))) ''Name''
       (Some (Selection FieldVal (Some (Named localPerson []))))"

definition shadowed :: pass where
  "shadowed =
     \<lparr>Files = [File 0 [GenDecl 1 [personSpec],
         FuncDecl 40
           \<lparr>fd_Doc = None, fd_Recv = None, fd_Name = ''Local'', fd_Pos = 400,
            fd_Params = Some [], fd_Results = []\<rparr>
           (Some [OtherNode 41 [GenDecl 42 [TypeSpec 43 (Some localPerson)
              (Some [\<lparr>Doc = None, Comment = None, Names = [Id ''Name'' 430]\<rparr>])]],
            OtherNode 44 [GenDecl 45 []],
            AssignStmt 46 [localTarget] ASSIGN [OtherNode 50 []]])]],
      PkgPath = ''a'', Position = posText\<rparr>"

subsection \<open>An embedded field with a marker\<close>

text \<open>
  \<^verbatim>\<open>
  type Inner struct { X int }
  type Outer struct {
      Inner // +const
      // +const
      ID int
  }
  func Reset(o *Outer) { o.Inner = Inner{} }
  \<close>
\<close>

definition Inner :: object where
  "Inner = Object 60 TypeNameObj ''Inner'' 10"

definition Outer :: object where
  "Outer = Object 61 TypeNameObj ''Outer'' 50"

definition embeddedTarget :: node where
  "embeddedTarget =
     SelectorExpr 6 120 (Ident 7 ''o'' 120 (Some (Object 8 VarObj ''o'' 105))) ''Inner''
       (Some (Selection FieldVal (Some (Pointer (Named Outer [])))))"

definition embedded :: pass where
  "embedded =
     \<lparr>Files = [File 0 [
         GenDecl 1 [TypeSpec 2 (Some Inner)
           (Some [\<lparr>Doc = None, Comment = None, Names = [Id ''X'' 25]\<rparr>])],
         GenDecl 3 [TypeSpec 4 (Some Outer)
           (Some [\<lparr>Doc = None, Comment = Some [''// +const''], Names = []\<rparr>,
                  \<lparr>Doc = Some [''// +const''], Comment = None, Names = [Id ''ID'' 70]\<rparr>])],
         FuncDecl 5
           \<lparr>fd_Doc = None, fd_Recv = None, fd_Name = ''Reset'', fd_Pos = 100,
            fd_Params = Some [\<lparr>Doc = None, Comment = None, Names = [Id ''o'' 105]\<rparr>],
            fd_Results = []\<rparr>
           (Some [AssignStmt 9 [embeddedTarget] ASSIGN [CompositeLit 10 (Some (Named Inner [])) []]])]],
      PkgPath = ''a'', Position = posText\<rparr>"

subsection \<open>Increments and decrements\<close>

text \<open>
  \<^verbatim>\<open>
  type Counter struct {
      // +const
      N int
  }
  // +const
  func Bump(c *Counter, k int) int { c.N++; k--; j := k; return j }
  \<close>
\<close>

definition Counter :: object where
  "Counter = Object 70 TypeNameObj ''Counter'' 10"

definition counters :: pass where
  "counters =
     \<lparr>Files = [File 0 [
         GenDecl 1 [TypeSpec 2 (Some Counter)
           (Some [\<lparr>Doc = Some [''// +const''], Comment = None, Names = [Id ''N'' 30]\<rparr>])],
         FuncDecl 3
           \<lparr>fd_Doc = Some [''// +const''], fd_Recv = None, fd_Name = ''Bump'', fd_Pos = 100,
            fd_Params = Some [\<lparr>Doc = None, Comment = None, Names = [Id ''c'' 110]\<rparr>,
                              \<lparr>Doc = None, Comment = None, Names = [Id ''k'' 122]\<rparr>],
            fd_Results = [OtherType ''int'']\<rparr>
           (Some [IncDecStmt 4
              (SelectorExpr 5 140 (Ident 6 ''c'' 140 (Some (Object 7 VarObj ''c'' 110))) ''N''
                 (Some (Selection FieldVal (Some (Pointer (Named Counter []))))))
              INC,
            IncDecStmt 8 (Ident 9 ''k'' 150 (Some (Object 10 VarObj ''k'' 122))) DEC,
            AssignStmt 11 [Ident 12 ''j'' 160 (Some (Object 13 VarObj ''j'' 160))] DEFINE
              [Ident 14 ''k'' 165 (Some (Object 10 VarObj ''k'' 122))],
            OtherNode 15 [Ident 16 ''j'' 177 (Some (Object 13 VarObj ''j'' 160))]])]],
      PkgPath = ''a'', Position = posText\<rparr>"

subsection \<open>A field marker with an unclosed list\<close>

text \<open>
  \<^verbatim>\<open>
  type Config struct {
      // +const:[
      APIKey string
      Timeout int
  }
  // UpdateConfig updates a config.
  func UpdateConfig(c *Config) { c.APIKey = "new-secret" }
  \<close>
\<close>

definition Config :: object where
  "Config = Object 80 TypeNameObj ''Config'' 10"

definition apiKeyField :: field where
  "apiKeyField = \<lparr>Doc = Some [''// +const:[''], Comment = None, Names = [Id ''APIKey'' 30]\<rparr>"

definition configPos :: "pos \<Rightarrow> string" where
  "configPos p = (if p = 30 then ''config.go:3:2'' else ''-'')"

definition malformed :: pass where
  "malformed =
     \<lparr>Files = [File 0 [
         GenDecl 1 [TypeSpec 2 (Some Config)
           (Some [apiKeyField, \<lparr>Doc = None, Comment = None, Names = [Id ''Timeout'' 45]\<rparr>])],
         FuncDecl 3
           \<lparr>fd_Doc = Some [''// UpdateConfig updates a config.''], fd_Recv = None,
            fd_Name = ''UpdateConfig'', fd_Pos = 100,
            fd_Params = Some [\<lparr>Doc = None, Comment = None, Names = [Id ''c'' 118]\<rparr>],
            fd_Results = []\<rparr>
           (Some [AssignStmt 4
              [SelectorExpr 5 140 (Ident 6 ''c'' 140 (Some (Object 7 VarObj ''c'' 118))) ''APIKey''
                 (Some (Selection FieldVal (Some (Pointer (Named Config [])))))]
              ASSIGN [OtherNode 8 []]])]],
      PkgPath = ''a'', Position = configPos\<rparr>"

subsection \<open>Markers for all parameters\<close>

text \<open>
  \<^verbatim>\<open>
  // Scale multiplies its arguments.
  // +const
  func Scale(x int, y, z float64) {}

  // +const
  func Tick() {}

  // +const:[a]
  // +const
  func F(a int, b int) { b = 1 }
  \<close>
  The marker of \<open>Scale\<close> is followed by a no-break space (U+00A0, the bytes \<open>C2 A0\<close>) and
  a blank.
\<close>

definition scaleDecl :: func_decl where
  "scaleDecl =
     \<lparr>fd_Doc = Some [''// Scale multiplies its arguments.'',
                     ''// +const'' @ [CHR 0xC2, CHR 0xA0, CHR 0x20]],
      fd_Recv = None, fd_Name = ''Scale'', fd_Pos = 100,
      fd_Params = Some [\<lparr>Doc = None, Comment = None, Names = [Id ''x'' 111]\<rparr>,
                        \<lparr>Doc = None, Comment = None, Names = [Id ''y'' 118, Id ''z'' 121]\<rparr>],
      fd_Results = []\<rparr>"

definition tickDecl :: func_decl where
  "tickDecl =
     \<lparr>fd_Doc = Some [''// +const''], fd_Recv = None, fd_Name = ''Tick'', fd_Pos = 200,
      fd_Params = Some [], fd_Results = []\<rparr>"

definition mixedDecl :: func_decl where
  "mixedDecl =
     \<lparr>fd_Doc = Some [''// +const:[a]'', ''// +const''], fd_Recv = None, fd_Name = ''F'',
      fd_Pos = 100,
      fd_Params = Some [\<lparr>Doc = None, Comment = None, Names = [Id ''a'' 107]\<rparr>,
                        \<lparr>Doc = None, Comment = None, Names = [Id ''b'' 114]\<rparr>],
      fd_Results = []\<rparr>"

definition mixed :: pass where
  "mixed =
     \<lparr>Files = [File 0 [
         FuncDecl 1 mixedDecl
           (Some [AssignStmt 2 [Ident 3 ''b'' 130 (Some (Object 4 VarObj ''b'' 114))] ASSIGN
              [OtherNode 5 []]])]],
      PkgPath = ''a'', Position = (\<lambda>p. if p = 100 then ''f.go:3:1'' else ''-'')\<rparr>"

text \<open>
  \<^verbatim>\<open>
  //+const
  func G(a int, b int) { b = 1 }
  \<close>
  The comment has no blank between \<open>//\<close> and \<open>+const\<close>: its text without the comment
  marker, trimmed or not, is exactly \<open>+const\<close>.
\<close>

definition tightDecl :: func_decl where
  "tightDecl =
     \<lparr>fd_Doc = Some [''//+const''], fd_Recv = None, fd_Name = ''G'', fd_Pos = 100,
      fd_Params = Some [\<lparr>Doc = None, Comment = None, Names = [Id ''a'' 107]\<rparr>,
                        \<lparr>Doc = None, Comment = None, Names = [Id ''b'' 114]\<rparr>],
      fd_Results = []\<rparr>"

definition tight :: pass where
  "tight =
     \<lparr>Files = [File 0 [
         FuncDecl 1 tightDecl
           (Some [AssignStmt 2 [Ident 3 ''b'' 130 (Some (Object 4 VarObj ''b'' 114))] ASSIGN
              [OtherNode 5 []]])]],
      PkgPath = ''a'', Position = (\<lambda>p. if p = 100 then ''g.go:2:1'' else ''-'')\<rparr>"

subsection \<open>A local variable that shadows a marked parameter\<close>

text \<open>
  \<^verbatim>\<open>
  // +const:[name]
  func Greet(name string) {
      {
          name := "local"
          name = "changed"
          _ = name
      }
  }
  \<close>
  The identifiers \<open>name\<close> of the block resolve to the variable declared in the block
  (at position 140), not to the parameter (declared at 112). The blank identifier
  resolves to no object.
\<close>

definition localName :: object where
  "localName = Object 9 VarObj ''name'' 140"

definition greetDecl :: func_decl where
  "greetDecl =
     \<lparr>fd_Doc = Some [''// +const:[name]''], fd_Recv = None, fd_Name = ''Greet'', fd_Pos = 100,
      fd_Params = Some [\<lparr>Doc = None, Comment = None, Names = [Id ''name'' 112]\<rparr>],
      fd_Results = []\<rparr>"

definition shadowing :: pass where
  "shadowing =
     \<lparr>Files = [File 0 [
         FuncDecl 1 greetDecl
           (Some [OtherNode 2
              [AssignStmt 3 [Ident 4 ''name'' 140 (Some localName)] DEFINE [OtherNode 5 []],
               AssignStmt 6 [Ident 7 ''name'' 160 (Some localName)] ASSIGN [OtherNode 8 []],
               AssignStmt 10 [Ident 11 ''_'' 180 None] ASSIGN
                 [Ident 12 ''name'' 184 (Some localName)]]])]],
      PkgPath = ''a'', Position = (\<lambda>p. if p = 100 then ''greet.go:2:1'' else ''-'')\<rparr>"

subsection \<open>Composite literals that the scan does not take for a literal of the type\<close>

text \<open>
  \<^verbatim>\<open>
  type Person struct { ... }          // as above
  type Box[T any] struct {
      // +const
      V T
  }
  var Build = func() *Person {
      p := &Person{}
      p.Name = "Alice"
      return p
  }
  func Reset(p *Person) {
      _ = []Person{{}}
      p.Name = "x"
  }
  func Fill(b *Box[int]) {
      _ = Box[string]{}
      b.V = 1
  }
  \<close>
  \<open>Build\<close> is a function literal at package level, before every function declaration of
  the file. The element of \<open>[]Person{{}}\<close> is a \<open>Person\<close> literal written without its type.
\<close>

definition Box :: object where
  "Box = Object 90 TypeNameObj ''Box'' 80"

definition boxSpec :: node where
  "boxSpec = TypeSpec 4 (Some Box) (Some [
      \<lparr>Doc = Some [''// +const''], Comment = None, Names = [Id ''V'' 95]\<rparr>])"

definition literalsPos :: "pos \<Rightarrow> string" where
  "literalsPos p =
     (if p = 40 then ''person.go:5:2'' else if p = 95 then ''person.go:14:2'' else ''-'')"

definition literals :: pass where
  "literals =
     \<lparr>Files = [File 0 [GenDecl 1 [personSpec], GenDecl 3 [boxSpec],
         GenDecl 5 [OtherNode 6 [OtherNode 7
           [AssignStmt 8 [Ident 9 ''p'' 130 (Some (Object 10 VarObj ''p'' 130))] DEFINE
              [OtherNode 11 [CompositeLit 12 (Some (Named Person [])) []]],
            AssignStmt 13
              [SelectorExpr 14 150 (Ident 15 ''p'' 150 (Some (Object 10 VarObj ''p'' 130))) ''Name''
                 (Some ptrPerson)]
              ASSIGN [OtherNode 16 []],
            OtherNode 17 [Ident 18 ''p'' 180 (Some (Object 10 VarObj ''p'' 130))]]]],
         FuncDecl 20
           \<lparr>fd_Doc = None, fd_Recv = None, fd_Name = ''Reset'', fd_Pos = 200,
            fd_Params = Some [\<lparr>Doc = None, Comment = None, Names = [Id ''p'' 211]\<rparr>],
            fd_Results = []\<rparr>
           (Some [AssignStmt 21 [Ident 22 ''_'' 230 None] ASSIGN
              [CompositeLit 23 (Some (OtherType ''[]Person'')) [CompositeLit 24 None []]],
            AssignStmt 25
              [SelectorExpr 26 250 (Ident 27 ''p'' 250 (Some (Object 28 VarObj ''p'' 211))) ''Name''
                 (Some ptrPerson)]
              ASSIGN [OtherNode 29 []]]),
         FuncDecl 30
           \<lparr>fd_Doc = None, fd_Recv = None, fd_Name = ''Fill'', fd_Pos = 300,
            fd_Params = Some [\<lparr>Doc = None, Comment = None, Names = [Id ''b'' 310]\<rparr>],
            fd_Results = []\<rparr>
           (Some [AssignStmt 31 [Ident 32 ''_'' 330 None] ASSIGN
              [CompositeLit 33 (Some (Named Box [OtherType ''string''])) []],
            AssignStmt 34
              [SelectorExpr 35 350 (Ident 36 ''b'' 350 (Some (Object 37 VarObj ''b'' 310))) ''V''
                 (Some (Selection FieldVal (Some (Pointer (Named Box [OtherType ''int''])))))]
              ASSIGN [OtherNode 38 []]])]],
      PkgPath = ''a'', Position = literalsPos\<rparr>"

subsection \<open>A function literal at package level after a constructor\<close>

text \<open>
  \<^verbatim>\<open>
  type Person struct { ... }          // as above
  // NewPerson makes a person.
  func NewPerson() *Person { return &Person{} }
  // Rename is a function value.
  var Rename = func(p *Person) { p.Name = "x" }
  \<close>
  and the same package with the two declarations the other way round.
\<close>

definition newPersonNode :: node where
  "newPersonNode =
     FuncDecl 3
       \<lparr>fd_Doc = Some [''// NewPerson makes a person.''], fd_Recv = None,
        fd_Name = ''NewPerson'', fd_Pos = 100, fd_Params = Some [],
        fd_Results = [Pointer (Named Person [])]\<rparr>
       (Some [OtherNode 4 [OtherNode 5 [CompositeLit 6 (Some (Named Person [])) []]]])"

definition renameLit :: node where
  "renameLit =
     OtherNode 9
       [AssignStmt 10
          [SelectorExpr 11 240 (Ident 12 ''p'' 240 (Some (Object 13 VarObj ''p'' 225))) ''Name''
             (Some ptrPerson)]
          ASSIGN [OtherNode 14 []]]"

definition renameVar :: node where
  "renameVar = GenDecl 7 [OtherNode 8 [renameLit]]"

definition pkgLevel :: pass where
  "pkgLevel =
     \<lparr>Files = [File 0 [GenDecl 1 [personSpec], newPersonNode, renameVar]],
      PkgPath = ''a'', Position = posText\<rparr>"

definition pkgLevelSwapped :: pass where
  "pkgLevelSwapped =
     \<lparr>Files = [File 0 [GenDecl 1 [personSpec], renameVar, newPersonNode]],
      PkgPath = ''a'', Position = posText\<rparr>"

subsection \<open>Writes to a marked parameter\<close>

text \<open>
  \<^verbatim>\<open>
  // Update changes its arguments.
  // +const:[name, age]
  func Update(name string, age int, email string) *Person {
      p := &Person{}
      name = "x"
      age += 1
      email = "e"
      return p
  }

  // +const
  func Clear(p *Person) {
      p = &Person{}
  }
  \<close>
\<close>

definition updateDecl :: func_decl where
  "updateDecl =
     \<lparr>fd_Doc = Some [''// Update changes its arguments.'', ''// +const:[name, age]''],
      fd_Recv = None, fd_Name = ''Update'', fd_Pos = 100,
      fd_Params = Some [\<lparr>Doc = None, Comment = None, Names = [Id ''name'' 112]\<rparr>,
                        \<lparr>Doc = None, Comment = None, Names = [Id ''age'' 125]\<rparr>,
                        \<lparr>Doc = None, Comment = None, Names = [Id ''email'' 134]\<rparr>],
      fd_Results = [Pointer (Named Person [])]\<rparr>"

definition updateBody :: "node list" where
  "updateBody =
     [AssignStmt 51 [Ident 52 ''p'' 160 (Some (Object 4 VarObj ''p'' 160))] DEFINE
        [OtherNode 53 [CompositeLit 54 (Some (Named Person [])) []]],
      AssignStmt 55 [Ident 56 ''name'' 180 (Some (Object 9 VarObj ''name'' 112))] ASSIGN
        [OtherNode 57 []],
      AssignStmt 58 [Ident 59 ''age'' 195 (Some (Object 13 VarObj ''age'' 125))] ADD_ASSIGN
        [OtherNode 60 []],
      AssignStmt 61 [Ident 62 ''email'' 208 (Some (Object 17 VarObj ''email'' 134))] ASSIGN
        [OtherNode 63 []],
      OtherNode 64 [Ident 65 ''p'' 230 (Some (Object 4 VarObj ''p'' 160))]]"

definition clearDecl :: func_decl where
  "clearDecl =
     \<lparr>fd_Doc = Some [''// +const''], fd_Recv = None, fd_Name = ''Clear'', fd_Pos = 300,
      fd_Params = Some [\<lparr>Doc = None, Comment = None, Names = [Id ''p'' 311]\<rparr>],
      fd_Results = []\<rparr>"

definition clearBody :: "node list" where
  "clearBody =
     [AssignStmt 71 [Ident 72 ''p'' 330 (Some (Object 33 VarObj ''p'' 311))] ASSIGN
        [OtherNode 73 [CompositeLit 74 (Some (Named Person [])) []]]]"

definition updatesPos :: "pos \<Rightarrow> string" where
  "updatesPos p =
     (if p = 100 then ''update.go:10:1'' else if p = 300 then ''update.go:19:1'' else ''-'')"

definition updates :: pass where
  "updates =
     \<lparr>Files = [File 0 [GenDecl 1 [personSpec],
         FuncDecl 50 updateDecl (Some updateBody),
         FuncDecl 70 clearDecl (Some clearBody)]],
      PkgPath = ''a'', Position = updatesPos\<rparr>"




subsection \<open>A function declaration without a body\<close>





section \<open>The properties\<close>

subsection \<open>C1: the initialization contexts\<close>

text \<open>
  C1, as the code has it. Let a write to \<open>x.F\<close>, with \<open>x\<close> of type \<open>T\<close> or \<open>*T\<close>, stand on the
  left of an assignment in the body of a function declaration \<open>R\<close> (anywhere in it, also
  inside a function literal). When the body of \<open>R\<close> holds, anywhere, before or after the
  write, reachable or not, a composite literal written with a type that is identical to
  \<open>T\<close> (type arguments included) or is a pointer to such a type, the check of the write
  yields no diagnostic. The name of \<open>R\<close>, its receiver and its results are not looked at
  (see the counterexample). The package is well formed: its nodes have distinct
  addresses, and function declarations do not nest (they never do in a Go file).
\<close>

theorem C1_literal_exempts:
  assumes dist: "distinct (map addr (allNodes pass))"
    and R: "FuncDecl a d (Some body) \<in> set (allNodes pass)"
    and nonest: "\<not> list_ex isFuncDecl (concat (map preorder body))"
    and stmt: "AssignStmt sa lhs tok rhs \<in> set (concat (map preorder body))"
    and target: "SelectorExpr i p x F (Some (Selection k (Some recv))) \<in> set lhs"
    and recv: "recv = Named T targs \<or> recv = Pointer (Named T targs)"
    and lit: "CompositeLit la (Some ty) elts \<in> set (concat (map preorder body))"
    and ty: "Identical (elemOfPointer ty) (Named T targs)"
  shows "checkLhs pass constFields constParams
           (SelectorExpr i p x F (Some (Selection k (Some recv)))) = Inr []"
proof -
  let ?t = "SelectorExpr i p x F (Some (Selection k (Some recv)))"
  have inb: "?t \<in> set (concat (map preorder body))"
    using stmt target by (rule lhs_in_body)
  have "literalOf (T, targs) (CompositeLit la (Some ty) elts)" using ty by simp
  with lit have "list_ex (literalOf (T, targs)) (concat (map preorder body))"
    unfolding list_ex_iff by blast
  then have inst: "isInstanciator pass ?t (T, targs) = Inr True"
    using isInstanciator_in_func[OF dist R nonest inb, of "(T, targs)"] by simp
  from recv have n: "namedTypeOf recv = Some (T, targs)" by auto
  show ?thesis
  proof (cases "k = FieldVal")
    case True
    with inst n show ?thesis
      by (simp add: checkLhs_def checkFieldAssignment_def split: option.splits)
  next
    case False
    then show ?thesis
      by (simp add: checkLhs_def checkFieldAssignment_def)
  qed
qed

theorem C1_witness:
  "fieldMarkedAt people Person ''Name'' 40
   \<and> checkLhs people (fst (buildIndex people)) (snd (buildIndex people)) createPersonTarget = Inr []"
proof -
  have h1: "distinct (map addr (allNodes people))" by code_simp
  have h2: "FuncDecl 10 createPersonDecl (Some createPersonBody) \<in> set (allNodes people)"
    by code_simp
  have h3: "\<not> list_ex isFuncDecl (concat (map preorder createPersonBody))" by code_simp
  have h4: "AssignStmt 16 [createPersonTarget] ASSIGN [OtherNode 19 []]
      \<in> set (concat (map preorder createPersonBody))" by code_simp
  have h5: "SelectorExpr 17 250 (Ident 18 ''p'' 250 (Some (Object 13 VarObj ''p'' 230))) ''Name''
      (Some (Selection FieldVal (Some (Pointer (Named Person []))))) \<in> set [createPersonTarget]"
    by (simp add: createPersonTarget_def ptrPerson_def)
  have h6: "Pointer (Named Person []) = Named Person []
      \<or> Pointer (Named Person []) = Pointer (Named Person [])"
    by simp
  have h7: "CompositeLit 15 (Some (Named Person [])) []
      \<in> set (concat (map preorder createPersonBody))" by code_simp
  have h8: "Identical (elemOfPointer (Named Person [])) (Named Person [])" by simp
  have h9: "fieldMarkedAt people Person ''Name'' 40" by code_simp
  from C1_literal_exempts[OF h1 h2 h3 h4 h5 h6 h7 h8] h9
  show ?thesis by (simp add: createPersonTarget_def ptrPerson_def)
qed

text \<open>
  C1 as stated fails.
  \<^item> In \<open>renames\<close>, \<open>NewName\<close> is a method of \<open>Person\<close> whose name starts with \<open>New\<close>
    (rule a) and \<open>Rename\<close> returns \<open>*Person\<close> (rule b); neither builds a literal, and the
    write to \<open>Name\<close> is reported in both.
  \<^item> In \<open>literals\<close>, three writes stand in a routine that builds a literal (rule c) and
    are reported: in \<open>Build\<close>, a function literal outside every function declaration,
    whose own body is not searched; in \<open>Reset\<close>, where the \<open>Person\<close> literal is written
    without its type; in \<open>Fill\<close>, where the literal is a \<open>Box[string]\<close> and the receiver a
    \<open>*Box[int]\<close>.
\<close>

theorem C1_counterexample:
  "fd_Recv newNameDecl = Some (Pointer (Named Person [])) \<and> prefix ''New'' (fd_Name newNameDecl)
   \<and> fd_Results renameDecl = [Pointer (Named Person [])]
   \<and> run renames =
       Inr [Diagnostic 140 ''assignment to const field Person.Name (marked with // +const at person.go:5:2)'',
            Diagnostic 240 ''assignment to const field Person.Name (marked with // +const at person.go:5:2)'']
   \<and> run literals =
       Inr [Diagnostic 150 ''assignment to const field Person.Name (marked with // +const at person.go:5:2)'',
            Diagnostic 250 ''assignment to const field Person.Name (marked with // +const at person.go:5:2)'',
            Diagnostic 350 ''assignment to const field Box.V (marked with // +const at person.go:14:2)'']"
  by code_simp

subsection \<open>C2: a field marker with an unclosed list\<close>

text \<open>
  C2, as the code has it. The marker of a field is the text \<open>+const\<close> anywhere in a
  comment of the field. A comment that holds \<open>+const:[\<close>, with or without a closing
  bracket, therefore marks the field: every name of the field gets an entry, in the
  table of the package too (and a write to it is then checked like a write to any
  marked field). The index builder has no failure: it is a total function.
\<close>

theorem C2_unclosed_list_marks_field:
  assumes line: "line \<in> set comments"
    and unclosed: "Contains line ''+const:[''"
    and attached: "Doc f = Some comments \<or> Comment f = Some comments"
    and name: "Id F q \<in> set (Names f)"
    and decl: "TypeSpec a (Some T) (Some fl) \<in> set (allNodes pass)"
    and typeName: "obj_class T = TypeNameObj"
    and field: "f \<in> set fl"
  shows "hasConstMarker f \<and> ConstField T F \<in> dom (markField T f cf)
     \<and> fieldMarkedAt pass T F q \<and> ConstField T F \<in> dom (fst (buildIndex pass))"
proof -
  have "Contains line (''+const'' @ '':['')" using unclosed by simp
  then have "Contains line ''+const''" by (rule Contains_append)
  with line have "hasMarker comments" by (auto simp: hasMarker_def list_ex_iff)
  with attached have m: "hasConstMarker f"
    by (auto simp: hasConstMarker_def Let_def split: option.splits)
  from name have "ConstField T (Name (Id F q)) \<in> (\<lambda>name. ConstField T (Name name)) ` set (Names f)"
    by (rule imageI)
  with m have e: "ConstField T F \<in> dom (markField T f cf)"
    unfolding markField_dom by simp
  have "markedIn T F q (TypeSpec a (Some T) (Some fl))"
    using typeName field m name by (auto simp: list_ex_iff)
  with decl have fm: "fieldMarkedAt pass T F q"
    unfolding fieldMarkedAt_def list_ex_iff by blast
  then have "ConstField T F \<in> dom (fst (buildIndex pass))"
    by (rule index_field_complete)
  with m e fm show ?thesis by blast
qed

theorem C2_witness:
  "\<not> Contains ''// +const:['' '']''
   \<and> hasConstMarker apiKeyField
   \<and> ConstField Config ''APIKey'' \<in> dom (markField Config apiKeyField Map.empty)
   \<and> fieldMarkedAt malformed Config ''APIKey'' 30
   \<and> ConstField Config ''APIKey'' \<in> dom (fst (buildIndex malformed))"
proof -
  have h0: "\<not> Contains ''// +const:['' '']''" by code_simp
  have h1: "''// +const:['' \<in> set [''// +const:['']" by simp
  have h2: "Contains ''// +const:['' ''+const:[''" by code_simp
  have h3: "Doc apiKeyField = Some [''// +const:['']
      \<or> Comment apiKeyField = Some [''// +const:['']"
    by (simp add: apiKeyField_def)
  have h4: "Id ''APIKey'' 30 \<in> set (Names apiKeyField)" by (simp add: apiKeyField_def)
  have h5: "TypeSpec 2 (Some Config)
        (Some [apiKeyField, \<lparr>Doc = None, Comment = None, Names = [Id ''Timeout'' 45]\<rparr>])
      \<in> set (allNodes malformed)" by code_simp
  have h6: "obj_class Config = TypeNameObj" by code_simp
  have h7: "apiKeyField
      \<in> set [apiKeyField, \<lparr>Doc = None, Comment = None, Names = [Id ''Timeout'' 45]\<rparr>]"
    by simp
  from C2_unclosed_list_marks_field[OF h1 h2 h3 h4 h5 h6 h7, where cf = Map.empty] h0
  show ?thesis by (simp del: domIff)
qed

text \<open>
  C2 as stated fails: the comment \<open>// +const:[\<close> has no closing bracket, the field
  \<open>APIKey\<close> gets its entry, and the write to it is reported.
\<close>

theorem C2_counterexample:
  "\<not> Contains ''// +const:['' '']''
   \<and> Doc apiKeyField = Some [''// +const:['']
   \<and> fst (buildIndex malformed) (ConstField Config ''APIKey'') = Some 30
   \<and> run malformed =
       Inr [Diagnostic 140 ''assignment to const field Config.APIKey (marked with // +const at config.go:3:2)'']"
  by code_simp

subsection \<open>C3: the binding of a written name\<close>

text \<open>
  C3 says that a write to a local variable that shadows a marked parameter yields no
  diagnostic. The code looks the name up, not the binding: in \<open>Greet\<close> the write
  \<open>name = "changed"\<close> to the variable of the block is reported as a write to the
  parameter. (The define statement before it is skipped, as C3 says.)
\<close>

theorem C3_shadowing_local_reported:
  "paramNames greetDecl = [''name'']
   \<and> allParamNames greetDecl = [''name'']
   \<and> obj_pos localName \<noteq> 112
   \<and> run shadowing =
       Inr [Diagnostic 160 ''assignment to const parameter name (marked with // +const at greet.go:2:1)'']"
  by code_simp

subsection \<open>C4: a write to a marked parameter\<close>




subsection \<open>C5: a write to a marked field outside an initialization context\<close>

text \<open>
  What the code does for a write inside a function declaration. For a struct type \<open>T\<close>
  with a field \<open>F\<close> marked immutable, a write to \<open>x.F\<close>, with \<open>x\<close> of type \<open>T\<close> or \<open>*T\<close>, on the
  left of an assignment statement other than a define statement in the body of a
  function declaration \<open>R\<close> whose body holds no composite literal written with a type
  identical to \<open>T\<close> or with a pointer to it: the check yields exactly one diagnostic, at
  the selector; its message names \<open>T\<close>, \<open>F\<close> and the position \<open>q\<close> of the name \<open>F\<close> in a
  marked field declaration of \<open>T\<close>; and every pass that ends without a panic reports it.
  (The package is well formed, as above.)
\<close>

lemma field_write_in_function_reported:
  assumes dist: "distinct (map addr (allNodes pass))"
    and R: "FuncDecl a d (Some body) \<in> set (allNodes pass)"
    and nonest: "\<not> list_ex isFuncDecl (concat (map preorder body))"
    and stmt: "AssignStmt sa lhs tok rhs \<in> set (concat (map preorder body))"
    and tok: "tok \<noteq> DEFINE"
    and target: "SelectorExpr i p x F (Some (Selection FieldVal (Some recv))) \<in> set lhs"
    and recv: "recv = Named T targs \<or> recv = Pointer (Named T targs)"
    and marked: "fieldMarkedAt pass T F q0"
    and noinit: "\<And>la ty elts. CompositeLit la (Some ty) elts \<in> set (concat (map preorder body)) \<Longrightarrow>
                   \<not> Identical (elemOfPointer ty) (Named T targs)"
  shows "\<exists>q. fieldMarkedAt pass T F q
           \<and> checkLhs pass (fst (buildIndex pass)) (snd (buildIndex pass))
               (SelectorExpr i p x F (Some (Selection FieldVal (Some recv))))
             = Inr [Diagnostic p (''assignment to const field '' @ obj_name T @ ''.'' @ F
                      @ '' (marked with // +const at '' @ Position pass q @ '')'')]
           \<and> (\<forall>ds. run pass = Inr ds \<longrightarrow>
                 Diagnostic p (''assignment to const field '' @ obj_name T @ ''.'' @ F
                   @ '' (marked with // +const at '' @ Position pass q @ '')'') \<in> set ds)"
proof -
  let ?t = "SelectorExpr i p x F (Some (Selection FieldVal (Some recv)))"
  from index_field_complete[OF marked] obtain q
    where q: "fst (buildIndex pass) (ConstField T F) = Some q" by auto
  then have m: "fieldMarkedAt pass T F q" by (rule index_field_sound)
  let ?D = "Diagnostic p (''assignment to const field '' @ obj_name T @ ''.'' @ F
                      @ '' (marked with // +const at '' @ Position pass q @ '')'')"
  have inb: "?t \<in> set (concat (map preorder body))"
    using stmt target by (rule lhs_in_body)
  have "\<not> literalOf (T, targs) n" if "n \<in> set (concat (map preorder body))" for n
    using that noinit by (cases "((T, targs), n)" rule: literalOf.cases) auto
  then have "\<not> list_ex (literalOf (T, targs)) (concat (map preorder body))"
    unfolding list_ex_iff by blast
  then have inst: "isInstanciator pass ?t (T, targs) = Inr False"
    using isInstanciator_in_func[OF dist R nonest inb, of "(T, targs)"] by simp
  from recv have n: "namedTypeOf recv = Some (T, targs)" by auto
  have c: "checkLhs pass (fst (buildIndex pass)) (snd (buildIndex pass)) ?t = Inr [?D]"
    using q inst n by (simp add: checkLhs_def checkFieldAssignment_def fieldMessage_def)
  have st: "AssignStmt sa lhs tok rhs \<in> set (allNodes pass)"
    using R stmt by (rule body_in_allNodes)
  have "?D \<in> set ds" if "run pass = Inr ds" for ds
    using run_contains[OF st tok target that] c by auto
  with m c show ?thesis by blast
qed

text \<open>
  C5 says that every write to a marked field in a routine that is no initialization
  context is reported. In \<open>pkgLevel\<close> the write \<open>p.Name = "x"\<close> stands in the function
  literal bound to \<open>Rename\<close>, which holds no composite literal; it is not reported,
  because \<open>isInstanciator\<close> takes the last function declaration that \<open>astPath\<close> met before
  the write, \<open>NewPerson\<close>, for the enclosing function, and \<open>NewPerson\<close> builds a \<open>Person\<close>.
  With the two declarations the other way round the same write is reported.
\<close>

theorem C5_write_in_package_level_literal:
  "fieldMarkedAt pkgLevel Person ''Name'' 40
   \<and> \<not> list_ex (literalOf (Person, [])) (preorder renameLit)
   \<and> lastFuncDecl (fst (astPath (Files pkgLevel)
        (SelectorExpr 11 240 (Ident 12 ''p'' 240 (Some (Object 13 VarObj ''p'' 225))) ''Name''
           (Some ptrPerson)))) = Some newPersonNode
   \<and> run pkgLevel = Inr []
   \<and> run pkgLevelSwapped =
       Inr [Diagnostic 240 ''assignment to const field Person.Name (marked with // +const at person.go:5:2)'']"
  by code_simp

subsection \<open>C6: the marker for all parameters\<close>

lemma fold_upd_other:
  "k \<notin> kf ` set xs \<Longrightarrow> fold (\<lambda>x m. m(kf x \<mapsto> vf x)) xs m k = m k"
  by (induction xs arbitrary: m) auto

lemma declared_names:
  "fd_Params d = Some params \<Longrightarrow>
   set (allParamNames d) = {P. \<exists>f q. f \<in> set params \<and> Id P q \<in> set (Names f)}"
proof (intro set_eqI iffI)
  fix P
  assume p: "fd_Params d = Some params" and "P \<in> set (allParamNames d)"
  then obtain f n where f: "f \<in> set params" and n: "n \<in> set (Names f)" "P = Name n"
    by (auto simp: allParamNames_def)
  from n have "Id P (NamePos n) \<in> set (Names f)" by simp
  with f show "P \<in> {P. \<exists>f q. f \<in> set params \<and> Id P q \<in> set (Names f)}" by blast
next
  fix P
  assume p: "fd_Params d = Some params"
    and "P \<in> {P. \<exists>f q. f \<in> set params \<and> Id P q \<in> set (Names f)}"
  then obtain f q where f: "f \<in> set params" and n: "Id P q \<in> set (Names f)" by blast
  from n have "Name (Id P q) \<in> Name ` set (Names f)" by (rule imageI)
  then have "P \<in> set (map Name (Names f))" by simp
  with f show "P \<in> set (allParamNames d)" by (auto simp: allParamNames_def p)
qed

text \<open>
  C6, as the code has it. When a comment of the doc comment of a function has the
  trimmed text \<open>// +const\<close> (the comment marker, one blank and the token, with white
  space of any kind around them), and no comment before it in the doc comment holds a
  complete list \<open>// +const:[...]\<close>, then
  \<^item> every declared parameter name gets an entry with the position of the declaration,
  \<^item> only the declared parameter names get one,
  \<^item> a function whose parameter list declares no name gets none, and the table is as
    before,
  \<^item> in the table of the package every declared parameter name of such a function has
    an entry.
  Building the index has no failure: it is a total function that cannot panic.
\<close>

theorem C6_standalone_marks_all:
  assumes doc: "fd_Doc d = Some (pre @ line # post)"
    and standalone: "TrimSpace line = ''// +const''"
    and first: "\<forall>t\<in>set pre. explicitList t = None"
  shows "(\<forall>params f P q. fd_Params d = Some params \<longrightarrow> f \<in> set params \<longrightarrow>
            Id P q \<in> set (Names f) \<longrightarrow>
            markParams pass d cp (ConstParam (fd_Name d) P (PkgPath pass)) = Some (fd_Pos d))
     \<and> (\<forall>k. markParams pass d cp k \<noteq> cp k \<longrightarrow>
            (\<exists>params f P q. fd_Params d = Some params \<and> f \<in> set params
               \<and> Id P q \<in> set (Names f) \<and> k = ConstParam (fd_Name d) P (PkgPath pass)))
     \<and> ((\<forall>params. fd_Params d = Some params \<longrightarrow> (\<forall>f\<in>set params. Names f = [])) \<longrightarrow>
            markParams pass d cp = cp)
     \<and> (\<forall>a body params f P q. FuncDecl a d body \<in> set (allNodes pass) \<longrightarrow>
            fd_Params d = Some params \<longrightarrow> f \<in> set params \<longrightarrow> Id P q \<in> set (Names f) \<longrightarrow>
            ConstParam (fd_Name d) P (PkgPath pass) \<in> dom (snd (buildIndex pass)))
     \<and> paramNames d = allParamNames d"
proof -
  have "scanDoc (pre @ line # post) = ([], True)"
    using standalone first by (rule scanDoc_standalone)
  with doc have pn: "paramNames d = allParamNames d"
    by (simp add: paramNames_def)
  have decl: "P \<in> set (paramNames d)"
    if "fd_Params d = Some params" "f \<in> set params" "Id P q \<in> set (Names f)" for params f P q
    unfolding pn declared_names[OF that(1)] using that(2,3) by blast
  have 1: "markParams pass d cp (ConstParam (fd_Name d) P (PkgPath pass)) = Some (fd_Pos d)"
    if "fd_Params d = Some params" "f \<in> set params" "Id P q \<in> set (Names f)" for params f P q
    unfolding markParams_def using decl[OF that]
    by (rule fold_upd_const[where kf = "\<lambda>P. ConstParam (fd_Name d) P (PkgPath pass)"])
  have 2: "\<exists>params f P q. fd_Params d = Some params \<and> f \<in> set params
               \<and> Id P q \<in> set (Names f) \<and> k = ConstParam (fd_Name d) P (PkgPath pass)"
    if k: "markParams pass d cp k \<noteq> cp k" for k
  proof -
    have "k \<in> (\<lambda>P. ConstParam (fd_Name d) P (PkgPath pass)) ` set (paramNames d)"
    proof (rule ccontr)
      assume "k \<notin> (\<lambda>P. ConstParam (fd_Name d) P (PkgPath pass)) ` set (paramNames d)"
      then have "markParams pass d cp k = cp k"
        unfolding markParams_def by (rule fold_upd_other)
      with k show False by simp
    qed
    then obtain P where P: "P \<in> set (allParamNames d)" "k = ConstParam (fd_Name d) P (PkgPath pass)"
      unfolding pn by blast
    from P(1) obtain params where ps: "fd_Params d = Some params"
      by (cases "fd_Params d") (auto simp: allParamNames_def)
    from P(1) obtain f q where "f \<in> set params" "Id P q \<in> set (Names f)"
      unfolding declared_names[OF ps] by blast
    with ps P(2) show ?thesis by blast
  qed
  have 3: "markParams pass d cp = cp"
    if "\<forall>params. fd_Params d = Some params \<longrightarrow> (\<forall>f\<in>set params. Names f = [])"
  proof -
    from that have "allParamNames d = []"
      by (cases "fd_Params d") (auto simp: allParamNames_def)
    then show ?thesis by (simp add: markParams_def pn)
  qed
  have 4: "ConstParam (fd_Name d) P (PkgPath pass) \<in> dom (snd (buildIndex pass))"
    if "FuncDecl a d body \<in> set (allNodes pass)" "fd_Params d = Some params" "f \<in> set params"
      "Id P q \<in> set (Names f)" for a body params f P q
    using that(1) decl[OF that(2,3,4)] by (rule index_param_complete)
  have c1: "\<forall>params f P q. fd_Params d = Some params \<longrightarrow> f \<in> set params \<longrightarrow>
            Id P q \<in> set (Names f) \<longrightarrow>
            markParams pass d cp (ConstParam (fd_Name d) P (PkgPath pass)) = Some (fd_Pos d)"
    using 1 by blast
  have c2: "\<forall>k. markParams pass d cp k \<noteq> cp k \<longrightarrow>
            (\<exists>params f P q. fd_Params d = Some params \<and> f \<in> set params
               \<and> Id P q \<in> set (Names f) \<and> k = ConstParam (fd_Name d) P (PkgPath pass))"
    using 2 by blast
  have c3: "(\<forall>params. fd_Params d = Some params \<longrightarrow> (\<forall>f\<in>set params. Names f = [])) \<longrightarrow>
            markParams pass d cp = cp"
    using 3 by blast
  have c4: "\<forall>a body params f P q. FuncDecl a d body \<in> set (allNodes pass) \<longrightarrow>
            fd_Params d = Some params \<longrightarrow> f \<in> set params \<longrightarrow> Id P q \<in> set (Names f) \<longrightarrow>
            ConstParam (fd_Name d) P (PkgPath pass) \<in> dom (snd (buildIndex pass))"
    using 4 by blast
  from c1 c2 c3 c4 pn show ?thesis by (intro conjI)
qed

theorem C6_witness:
  "markParams mixed scaleDecl Map.empty (ConstParam ''Scale'' ''x'' ''a'') = Some 100
   \<and> markParams mixed scaleDecl Map.empty (ConstParam ''Scale'' ''y'' ''a'') = Some 100
   \<and> markParams mixed scaleDecl Map.empty (ConstParam ''Scale'' ''z'' ''a'') = Some 100
   \<and> markParams mixed tickDecl Map.empty = Map.empty"
proof -
  have s1: "fd_Doc scaleDecl =
      Some ([''// Scale multiplies its arguments.''] @ (''// +const'' @ [CHR 0xC2, CHR 0xA0, CHR 0x20]) # [])"
    by (simp add: scaleDecl_def)
  have s2: "TrimSpace (''// +const'' @ [CHR 0xC2, CHR 0xA0, CHR 0x20]) = ''// +const''" by code_simp
  have s3: "\<forall>t\<in>set [''// Scale multiplies its arguments.'']. explicitList t = None" by code_simp
  have s4: "fd_Params scaleDecl =
      Some [\<lparr>Doc = None, Comment = None, Names = [Id ''x'' 111]\<rparr>,
            \<lparr>Doc = None, Comment = None, Names = [Id ''y'' 118, Id ''z'' 121]\<rparr>]"
    by (simp add: scaleDecl_def)
  have t1: "fd_Doc tickDecl = Some ([] @ ''// +const'' # [])" by (simp add: tickDecl_def)
  have t2: "TrimSpace ''// +const'' = ''// +const''" by code_simp
  have t3: "\<forall>t\<in>set []. explicitList t = None" by simp
  have t4: "\<forall>params. fd_Params tickDecl = Some params \<longrightarrow> (\<forall>f\<in>set params. Names f = [])"
    by (simp add: tickDecl_def)
  have a3: "fd_Name scaleDecl = ''Scale'' \<and> fd_Pos scaleDecl = 100 \<and> PkgPath mixed = ''a''"
    by code_simp
  have f1: "\<lparr>Doc = None, Comment = None, Names = [Id ''x'' 111]\<rparr>
      \<in> set [\<lparr>Doc = None, Comment = None, Names = [Id ''x'' 111]\<rparr>,
               \<lparr>Doc = None, Comment = None, Names = [Id ''y'' 118, Id ''z'' 121]\<rparr>]"
    by simp
  have f2: "\<lparr>Doc = None, Comment = None, Names = [Id ''y'' 118, Id ''z'' 121]\<rparr>
      \<in> set [\<lparr>Doc = None, Comment = None, Names = [Id ''x'' 111]\<rparr>,
               \<lparr>Doc = None, Comment = None, Names = [Id ''y'' 118, Id ''z'' 121]\<rparr>]"
    by simp
  have nx: "Id ''x'' 111 \<in> set (Names \<lparr>Doc = None, Comment = None, Names = [Id ''x'' 111]\<rparr>)"
    by simp
  have ny: "Id ''y'' 118
      \<in> set (Names \<lparr>Doc = None, Comment = None, Names = [Id ''y'' 118, Id ''z'' 121]\<rparr>)"
    by simp
  have nz: "Id ''z'' 121
      \<in> set (Names \<lparr>Doc = None, Comment = None, Names = [Id ''y'' 118, Id ''z'' 121]\<rparr>)"
    by simp
  note S = C6_standalone_marks_all[OF s1 s2 s3, of mixed Map.empty, THEN conjunct1, rule_format]
  note T = C6_standalone_marks_all[OF t1 t2 t3, of mixed Map.empty,
      THEN conjunct2, THEN conjunct2, THEN conjunct1, rule_format]
  from S[OF s4 f1 nx] a3
  have x: "markParams mixed scaleDecl Map.empty (ConstParam ''Scale'' ''x'' ''a'') = Some 100"
    by simp
  from S[OF s4 f2 ny] a3
  have y: "markParams mixed scaleDecl Map.empty (ConstParam ''Scale'' ''y'' ''a'') = Some 100"
    by simp
  from S[OF s4 f2 nz] a3
  have z: "markParams mixed scaleDecl Map.empty (ConstParam ''Scale'' ''z'' ''a'') = Some 100"
    by simp
  from T t4 have e: "markParams mixed tickDecl Map.empty = Map.empty" by blast
  from x y z e show ?thesis by (intro conjI)
qed

text \<open>
  C6 as stated fails.
  \<^item> The doc comment of \<open>F\<close> has a comment that is exactly \<open>// +const\<close>, but the list
    \<open>// +const:[a]\<close> before it ends the scan, and the parameter \<open>b\<close> gets no entry: the
    write to \<open>b\<close> is not reported.
  \<^item> The doc comment of \<open>G\<close> is \<open>//+const\<close>: the text of the comment, trimmed, is exactly
    \<open>+const\<close>, but the code compares the whole comment, with its marker, to \<open>// +const\<close>.
    No parameter of \<open>G\<close> gets an entry, and the write to \<open>b\<close> is not reported.
\<close>

theorem C6_counterexample:
  "fd_Doc mixedDecl = Some [''// +const:[a]'', ''// +const'']
   \<and> TrimSpace ''// +const'' = ''// +const''
   \<and> allParamNames mixedDecl = [''a'', ''b'']
   \<and> paramNames mixedDecl = [''a'']
   \<and> snd (buildIndex mixed) (ConstParam ''F'' ''a'' ''a'') = Some 100
   \<and> snd (buildIndex mixed) (ConstParam ''F'' ''b'' ''a'') = None
   \<and> run mixed = Inr []
   \<and> fd_Doc tightDecl = Some [''//+const'']
   \<and> TrimSpace (drop 2 ''//+const'') = ''+const''
   \<and> paramNames tightDecl = []
   \<and> snd (buildIndex tight) (ConstParam ''G'' ''a'' ''a'') = None
   \<and> snd (buildIndex tight) (ConstParam ''G'' ''b'' ''a'') = None
   \<and> run tight = Inr []"
  by code_simp

subsection \<open>C7: the table of fields is keyed by the type object\<close>

lemma checkAssignment_cites:
  assumes "checkAssignment pass (SelectorExpr i p x F (Some (Selection k (Some recv)))) cf = Inr ds"
    and "d \<in> set ds"
    and "recv = Named T targs \<or> recv = Pointer (Named T targs)"
  shows "\<exists>q. cf (ConstField T F) = Some q
           \<and> d = Diagnostic p (''assignment to const field '' @ obj_name T @ ''.'' @ F
                       @ '' (marked with // +const at '' @ Position pass q @ '')'')"
  using assms by (auto simp: fieldMessage_def split: option.splits if_splits sum.splits)

text \<open>
  C7. Let \<open>T1\<close> and \<open>T2\<close> be two type objects of the same name (declared in different
  scopes or packages), \<open>F\<close> a marked field of \<open>T1\<close>. The table has the entry of \<open>T1\<close>; a
  declaration of \<open>T1\<close> never counts as a marked declaration for \<open>T2\<close>; the entry of
  \<open>(T2, F)\<close>, when there is one, holds the position of a marked field \<open>F\<close> of \<open>T2\<close> itself;
  every diagnostic for a write to \<open>F\<close> through a receiver of type \<open>T2\<close> or \<open>*T2\<close> cites such
  a position and \<open>T2\<close>; and when \<open>T2\<close> marks no field \<open>F\<close>, there is no entry and no
  diagnostic for the write.
\<close>

theorem C7_entries_by_identity:
  assumes "T1 \<noteq> T2" and "obj_name T1 = obj_name T2" and "fieldMarkedAt pass T1 F q1"
    and recv: "recv = Named T2 targs \<or> recv = Pointer (Named T2 targs)"
  shows "fst (buildIndex pass) (ConstField T1 F) \<noteq> None
     \<and> (\<forall>q n a ty. n = TypeSpec a (Some T1) ty \<longrightarrow> \<not> markedIn T2 F q n)
     \<and> (\<forall>q. fst (buildIndex pass) (ConstField T2 F) = Some q \<longrightarrow> fieldMarkedAt pass T2 F q)
     \<and> (\<forall>ds. checkAssignment pass (SelectorExpr i p x F (Some (Selection k (Some recv))))
                (fst (buildIndex pass)) = Inr ds \<longrightarrow>
          (\<forall>d\<in>set ds. \<exists>q. fieldMarkedAt pass T2 F q
             \<and> d = Diagnostic p (''assignment to const field '' @ obj_name T2 @ ''.'' @ F
                       @ '' (marked with // +const at '' @ Position pass q @ '')'')))
     \<and> ((\<forall>q. \<not> fieldMarkedAt pass T2 F q) \<longrightarrow>
          fst (buildIndex pass) (ConstField T2 F) = None
          \<and> checkAssignment pass (SelectorExpr i p x F (Some (Selection k (Some recv))))
               (fst (buildIndex pass)) = Inr [])"
proof (intro conjI allI impI ballI)
  show "fst (buildIndex pass) (ConstField T1 F) \<noteq> None"
    using index_field_complete[OF assms(3)] by auto
next
  fix q n a ty
  assume "n = TypeSpec a (Some T1) ty"
  with assms(1) show "\<not> markedIn T2 F q n" by (cases ty) auto
next
  fix q
  assume "fst (buildIndex pass) (ConstField T2 F) = Some q"
  then show "fieldMarkedAt pass T2 F q" by (rule index_field_sound)
next
  fix ds d
  assume "checkAssignment pass (SelectorExpr i p x F (Some (Selection k (Some recv))))
                (fst (buildIndex pass)) = Inr ds" and "d \<in> set ds"
  from checkAssignment_cites[OF this recv]
  show "\<exists>q. fieldMarkedAt pass T2 F q
             \<and> d = Diagnostic p (''assignment to const field '' @ obj_name T2 @ ''.'' @ F
                       @ '' (marked with // +const at '' @ Position pass q @ '')'')"
    by (auto dest: index_field_sound)
next
  assume no: "\<forall>q. \<not> fieldMarkedAt pass T2 F q"
  then show none: "fst (buildIndex pass) (ConstField T2 F) = None"
    using index_field_sound[of pass T2 F] by (cases "fst (buildIndex pass) (ConstField T2 F)") auto
  from recv none
  show "checkAssignment pass (SelectorExpr i p x F (Some (Selection k (Some recv))))
               (fst (buildIndex pass)) = Inr []"
    by (auto split: option.splits)
qed

theorem C7_witness:
  "Person \<noteq> localPerson \<and> obj_name Person = obj_name localPerson
   \<and> fst (buildIndex shadowed) (ConstField Person ''Name'') = Some 40
   \<and> fst (buildIndex shadowed) (ConstField localPerson ''Name'') = None
   \<and> checkAssignment shadowed localTarget (fst (buildIndex shadowed)) = Inr []"
proof -
  have h1: "Person \<noteq> localPerson" by code_simp
  have h2: "obj_name Person = obj_name localPerson" by code_simp
  have h3: "fieldMarkedAt shadowed Person ''Name'' 40" by code_simp
  have h4: "Named localPerson [] = Named localPerson []
      \<or> Named localPerson [] = Pointer (Named localPerson [])"
    by simp
  have h5: "\<forall>q. \<not> fieldMarkedAt shadowed localPerson ''Name'' q"
    by (simp add: fieldMarkedAt_def allNodes_def shadowed_def preorder.simps personSpec_def
        Person_def localPerson_def localTarget_def hasConstMarker_def)
  have h6: "fst (buildIndex shadowed) (ConstField Person ''Name'') = Some 40" by code_simp
  from C7_entries_by_identity[OF h1 h2 h3 h4, where i = 47 and p = 460
      and x = "Ident 48 ''q'' 460 (Some (Object 49 VarObj ''q'' 445))" and k = FieldVal]
    h1 h2 h5 h6
  show ?thesis by (simp add: localTarget_def)
qed

subsection \<open>C8: one level of pointer indirection at the receiver\<close>

text \<open>
  C8. At a selector on the left of an assignment, a receiver of type \<open>*T\<close> is checked as
  a receiver of the named type \<open>T\<close> is: by the lookup of \<open>(T, F)\<close> in the table (then
  \<open>isInstanciator\<close> decides). Every other shape of the receiver type (a pointer to a
  pointer, a pointer to an unnamed type, an unnamed type, an alias that the type checker
  did not replace or a pointer to one, no receiver type, no selection) gives no
  diagnostic and no panic; the check has no error result.
\<close>

theorem C8_receiver_unwrapped_once:
  "checkAssignment pass
       (SelectorExpr a p x F (Some (Selection FieldVal (Some (Pointer (Named T targs)))))) cf
     = checkAssignment pass
         (SelectorExpr a p x F (Some (Selection FieldVal (Some (Named T targs))))) cf
   \<and> checkAssignment pass
         (SelectorExpr a p x F (Some (Selection FieldVal (Some (Named T targs))))) cf
     = (case cf (ConstField T F) of
          None \<Rightarrow> Inr []
        | Some q \<Rightarrow>
            (case isInstanciator pass
                    (SelectorExpr a p x F (Some (Selection FieldVal (Some (Named T targs)))))
                    (T, targs) of
               Inl e \<Rightarrow> Inl e
             | Inr inst \<Rightarrow>
                 if inst then Inr []
                 else Inr [Diagnostic p (''assignment to const field '' @ obj_name T @ ''.'' @ F
                       @ '' (marked with // +const at '' @ Position pass q @ '')'')]))
   \<and> checkAssignment pass (SelectorExpr a p x F (Some (Selection k (Some (Pointer (Pointer t)))))) cf
       = Inr []
   \<and> checkAssignment pass (SelectorExpr a p x F (Some (Selection k (Some (Pointer (OtherType s)))))) cf
       = Inr []
   \<and> checkAssignment pass (SelectorExpr a p x F (Some (Selection k (Some (Pointer (Alias n t)))))) cf
       = Inr []
   \<and> checkAssignment pass (SelectorExpr a p x F (Some (Selection k (Some (OtherType s))))) cf = Inr []
   \<and> checkAssignment pass (SelectorExpr a p x F (Some (Selection k (Some (Alias n t))))) cf = Inr []
   \<and> checkAssignment pass (SelectorExpr a p x F (Some (Selection k None))) cf = Inr []
   \<and> checkAssignment pass (SelectorExpr a p x F None) cf = Inr []"
proof -
  have "isInstanciator pass
          (SelectorExpr a p x F (Some (Selection FieldVal (Some (Pointer (Named T targs)))))) (T, targs)
      = isInstanciator pass
          (SelectorExpr a p x F (Some (Selection FieldVal (Some (Named T targs))))) (T, targs)"
    by (rule isInstanciator_addr) simp
  then show ?thesis by (simp add: fieldMessage_def split: option.splits sum.splits)
qed

subsection \<open>C9: embedded fields\<close>

text \<open>
  C9. A field without names (an embedded field) leaves the table as it is, whatever its
  comments say: only the names of a field are entered. So for the name \<open>F\<close> of an
  embedded field of \<open>T\<close> (no field of a declaration of \<open>T\<close> that carries the marker has
  the name \<open>F\<close> among its names) the table has no entry \<open>(T, F)\<close>, and a write to \<open>x.F\<close>
  through a receiver of type \<open>T\<close> or \<open>*T\<close> is not reported, also when other fields of \<open>T\<close>
  are marked.
\<close>

theorem C9_embedded_field_not_indexed:
  assumes unnamed: "\<And>a fl f q. TypeSpec a (Some T) (Some fl) \<in> set (allNodes pass) \<Longrightarrow>
                  f \<in> set fl \<Longrightarrow> Id F q \<in> set (Names f) \<Longrightarrow> \<not> hasConstMarker f"
    and recv: "recv = Named T targs \<or> recv = Pointer (Named T targs)"
  shows "(\<forall>f cf. Names f = [] \<longrightarrow> markField T f cf = cf)
     \<and> fst (buildIndex pass) (ConstField T F) = None
     \<and> checkAssignment pass (SelectorExpr i p x F (Some (Selection k (Some recv))))
          (fst (buildIndex pass)) = Inr []"
proof -
  have a: "\<forall>f cf. Names f = [] \<longrightarrow> markField T f cf = cf"
    by (simp add: markField_def)
  have no: "\<not> fieldMarkedAt pass T F q" for q
  proof
    assume "fieldMarkedAt pass T F q"
    then obtain n where n: "n \<in> set (allNodes pass)" "markedIn T F q n"
      by (auto simp: fieldMarkedAt_def list_ex_iff)
    then obtain a fl f where "n = TypeSpec a (Some T) (Some fl)" "f \<in> set fl"
      "hasConstMarker f" "Id F q \<in> set (Names f)"
      by (cases "(T, F, q, n)" rule: markedIn.cases) (auto simp: list_ex_iff)
    with unnamed[of a fl f q] n(1) show False by auto
  qed
  then have none: "fst (buildIndex pass) (ConstField T F) = None"
    using index_field_sound[of pass T F] by (cases "fst (buildIndex pass) (ConstField T F)") auto
  with recv have "checkAssignment pass (SelectorExpr i p x F (Some (Selection k (Some recv))))
          (fst (buildIndex pass)) = Inr []"
    by (auto split: option.splits)
  with a none show ?thesis by blast
qed

theorem C9_witness:
  "hasConstMarker \<lparr>Doc = None, Comment = Some [''// +const''], Names = []\<rparr>
   \<and> fst (buildIndex embedded) (ConstField Outer ''ID'') = Some 70
   \<and> fst (buildIndex embedded) (ConstField Outer ''Inner'') = None
   \<and> checkAssignment embedded embeddedTarget (fst (buildIndex embedded)) = Inr []"
proof -
  have h0: "hasConstMarker \<lparr>Doc = None, Comment = Some [''// +const''], Names = []\<rparr>
      \<and> fst (buildIndex embedded) (ConstField Outer ''ID'') = Some 70"
    by code_simp
  have h1: "\<And>a fl f q. TypeSpec a (Some Outer) (Some fl) \<in> set (allNodes embedded) \<Longrightarrow>
                  f \<in> set fl \<Longrightarrow> Id ''Inner'' q \<in> set (Names f) \<Longrightarrow> \<not> hasConstMarker f"
    by (auto simp: allNodes_def embedded_def preorder.simps Outer_def Inner_def embeddedTarget_def)
  have h2: "Pointer (Named Outer []) = Named Outer []
      \<or> Pointer (Named Outer []) = Pointer (Named Outer [])"
    by simp
  from C9_embedded_field_not_indexed[OF h1 h2, where i = 6 and p = 120
      and x = "Ident 7 ''o'' 120 (Some (Object 8 VarObj ''o'' 105))" and k = FieldVal] h0
  show ?thesis by (simp add: embeddedTarget_def)
qed

subsection \<open>C10: only assignment statements are scanned\<close>

text \<open>
  C10. When a package has no assignment statement other than define statements, \<open>run\<close>
  reports nothing, whatever increment and decrement statements it holds: the callback of
  the second pass returns at every node that is no \<open>*ast.AssignStmt\<close>. The instance
  below, \<open>Bump\<close>, increments a marked field and decrements a marked parameter.
\<close>

theorem C10_incdec_not_scanned:
  assumes "\<And>a lhs tok rhs. AssignStmt a lhs tok rhs \<in> set (allNodes pass) \<Longrightarrow> tok = DEFINE"
  shows "run pass = Inr [] \<and> (\<forall>cf cp a x tok. checkStmt pass cf cp (IncDecStmt a x tok) = Inr [])"
proof -
  have "checkStmt pass cf cp n = Inr []" if n: "n \<in> set (allNodes pass)" for cf cp n
  proof (cases n)
    case (AssignStmt a lhs tok rhs)
    with n have "tok = DEFINE" by (auto intro: assms)
    with AssignStmt show ?thesis by simp
  qed simp_all
  then have "run pass = Inr []"
    unfolding run_def case_prod_unfold by (intro checkAll_empty) simp
  then show ?thesis by simp
qed

theorem C10_witness:
  "fst (buildIndex counters) (ConstField Counter ''N'') = Some 30
   \<and> snd (buildIndex counters) (ConstParam ''Bump'' ''k'' ''a'') = Some 100
   \<and> run counters = Inr []"
proof -
  have h0: "fst (buildIndex counters) (ConstField Counter ''N'') = Some 30
      \<and> snd (buildIndex counters) (ConstParam ''Bump'' ''k'' ''a'') = Some 100"
    by code_simp
  have h1: "\<And>a lhs tok rhs. AssignStmt a lhs tok rhs \<in> set (allNodes counters) \<Longrightarrow> tok = DEFINE"
    by (auto simp: allNodes_def counters_def preorder.simps)
  from C10_incdec_not_scanned[OF h1] h0 show ?thesis by simp
qed

end
